theory Spec2Isabelle
  imports Main "HOL-Library.Sublist"
begin

section \<open>JavaScript values and strings\<close>

text \<open>
  The template engine works on JavaScript strings and on the data of a render context,
  as it comes from the YAML and JSON files of a project. A \<open>char\<close> stands for one
  code unit below 256. A mapping is the list of its own properties, looked up from
  the front; what it inherits from \<open>Object.prototype\<close> is written out below. A
  number is \<open>Num n\<close> when it is an integer, and \<open>Other_number k\<close> otherwise (a
  fraction, NaN, an infinity, the negative zero), \<open>k\<close> telling such numbers apart.
  \<open>Host h\<close> is a built-in object of the runtime, such as the function \<open>Object\<close>,
  which a property read can return although no file of a project holds one.

  What the program leaves to the runtime is a parameter of the model, the record
  \<open>runtime\<close>: the calendar year of the clock; what a value that is not a mapping
  inherits under a key it does not own (the members of \<open>Array.prototype\<close>,
  \<open>String.prototype\<close>, \<open>Function.prototype\<close> and so on, among them accessors that
  throw); the text and the JSON text of the values whose conversion the program does
  not fix by itself; and which of the other numbers count as true. A built-in object
  that is itself a sequence, as \<open>Array.prototype\<close> is, the runtime gives as the
  sequence it is.
\<close>

datatype jsval =
    Undefined
  | Null
  | Bool bool
  | Num int
  | Str string
  | Arr "jsval list"
  | Obj "(string \<times> jsval) list"
  | Other_number nat
  | Host string

type_synonym ctx = "(string \<times> jsval) list"

text \<open>What can be thrown: the errors of the runtime and whatever a helper throws.\<close>

datatype exn = TypeError | RangeError | Thrown jsval

record runtime =
  current_year :: nat
  inherited :: "jsval \<Rightarrow> string \<Rightarrow> exn + jsval"
  string_of :: "jsval \<Rightarrow> exn + string"
  json_of :: "jsval \<Rightarrow> exn + string option"
  number_truthy :: "nat \<Rightarrow> bool"

definition bind_res :: "exn + 'a \<Rightarrow> ('a \<Rightarrow> exn + 'b) \<Rightarrow> exn + 'b" where
  "bind_res m f = (case m of Inl e \<Rightarrow> Inl e | Inr x \<Rightarrow> f x)"

text \<open>\<open>String(n)\<close> for an integer.\<close>

definition digit_char :: "nat \<Rightarrow> char" where
  "digit_char d = ''0123456789'' ! (d mod 10)"

function show_nat :: "nat \<Rightarrow> string" where
  "show_nat n = (if n < 10 then [digit_char n] else show_nat (n div 10) @ [digit_char (n mod 10)])"
  by pat_completeness auto
termination
  by (relation "measure id") auto

declare show_nat.simps [simp del]

definition show_int :: "int \<Rightarrow> string" where
  "show_int i = (if i < 0 then CHR ''-'' # show_nat (nat (- i)) else show_nat (nat i))"

text \<open>\<open>\s\<close> of a regular expression and the characters \<open>trim\<close> removes.\<close>

definition is_space :: "char \<Rightarrow> bool" where
  "is_space c = (c \<in> set [CHR 0x09, CHR 0x0A, CHR 0x0B, CHR 0x0C, CHR 0x0D, CHR '' '', CHR 0xA0])"

definition trim :: "string \<Rightarrow> string" where
  "trim s = rev (dropWhile is_space (rev (dropWhile is_space s)))"

text \<open>\<open>s.split(c)\<close>: never empty, \<open>''''.split(c)\<close> is \<open>['''']\<close>.\<close>

fun split_on :: "char \<Rightarrow> string \<Rightarrow> string list" where
  "split_on c [] = [[]]"
| "split_on c (x # xs) =
     (if x = c then [] # split_on c xs
      else (case split_on c xs of [] \<Rightarrow> [[x]] | w # ws \<Rightarrow> (x # w) # ws))"

definition startsWith :: "string \<Rightarrow> string \<Rightarrow> bool" where
  "startsWith s p = prefix p s"

definition endsWith :: "string \<Rightarrow> string \<Rightarrow> bool" where
  "endsWith s p = suffix p s"

fun join :: "string \<Rightarrow> string list \<Rightarrow> string" where
  "join sep [] = []"
| "join sep [x] = x"
| "join sep (x # y # ys) = x @ sep @ join sep (y # ys)"

text \<open>The index a property key denotes in a sequence of \<open>n\<close> elements.\<close>

definition index_of_key :: "string \<Rightarrow> nat \<Rightarrow> nat option" where
  "index_of_key k n = find (\<lambda>i. show_nat i = k) [0..<n]"

text \<open>
  The string-keyed members of \<open>Object.prototype\<close>, which every mapping inherits
  (a context, a mapping of the data, the table of helpers): under \<open>constructor\<close>
  the function \<open>Object\<close>, under \<open>__proto__\<close> the prototype itself, under each
  other name the built-in function of that name.
\<close>

definition object_prototype_names :: "string list" where
  "object_prototype_names =
     [''constructor'', ''__defineGetter__'', ''__defineSetter__'', ''hasOwnProperty'',
      ''__lookupGetter__'', ''__lookupSetter__'', ''isPrototypeOf'', ''propertyIsEnumerable'',
      ''toString'', ''valueOf'', ''__proto__'', ''toLocaleString'']"

definition object_prototype :: "string \<Rightarrow> jsval" where
  "object_prototype k =
     (if k = ''constructor'' then Host ''Object''
      else if k = ''__proto__'' then Host ''Object.prototype''
      else if k \<in> set object_prototype_names then Host k
      else Undefined)"

text \<open>\<open>mapping[key]\<close>: the own property, else the inherited one, else \<open>undefined\<close>.\<close>

definition obj_prop :: "(string \<times> jsval) list \<Rightarrow> string \<Rightarrow> jsval" where
  "obj_prop kvs k = (case map_of kvs k of Some v \<Rightarrow> v | None \<Rightarrow> object_prototype k)"

text \<open>
  \<open>current?.[key]\<close>: \<open>undefined\<close> on \<open>null\<close> and \<open>undefined\<close>; on a sequence
  and on a string the length and the elements, and on every value but a mapping what
  the runtime lets it inherit, which may throw.
\<close>

fun get_prop :: "runtime \<Rightarrow> jsval \<Rightarrow> string \<Rightarrow> exn + jsval" where
  "get_prop rt Undefined k = Inr Undefined"
| "get_prop rt Null k = Inr Undefined"
| "get_prop rt (Obj kvs) k = Inr (obj_prop kvs k)"
| "get_prop rt (Arr xs) k =
     (if k = ''length'' then Inr (Num (int (length xs)))
      else (case index_of_key k (length xs) of
              Some i \<Rightarrow> Inr (xs ! i)
            | None \<Rightarrow> inherited rt (Arr xs) k))"
| "get_prop rt (Str s) k =
     (if k = ''length'' then Inr (Num (int (length s)))
      else (case index_of_key k (length s) of
              Some i \<Rightarrow> Inr (Str [s ! i])
            | None \<Rightarrow> inherited rt (Str s) k))"
| "get_prop rt (Bool b) k = inherited rt (Bool b) k"
| "get_prop rt (Num n) k = inherited rt (Num n) k"
| "get_prop rt (Other_number n) k = inherited rt (Other_number n) k"
| "get_prop rt (Host h) k = inherited rt (Host h) k"

text \<open>\<open>value.key\<close>: a TypeError on \<open>null\<close> and \<open>undefined\<close>.\<close>

definition get_member :: "runtime \<Rightarrow> jsval \<Rightarrow> string \<Rightarrow> exn + jsval" where
  "get_member rt v k = (if v = Undefined \<or> v = Null then Inl TypeError else get_prop rt v k)"

text \<open>
  \<^verbatim>\<open>path.split('.').reduce((current, key) => current?.[key], obj)\<close>
  The reduction stops at the first read that throws.
\<close>

fun reduce_props :: "runtime \<Rightarrow> jsval \<Rightarrow> string list \<Rightarrow> exn + jsval" where
  "reduce_props rt current [] = Inr current"
| "reduce_props rt current (key # keys) =
     (case get_prop rt current key of
        Inl e \<Rightarrow> Inl e
      | Inr v \<Rightarrow> reduce_props rt v keys)"

definition getNestedValue :: "runtime \<Rightarrow> jsval \<Rightarrow> string \<Rightarrow> exn + jsval" where
  "getNestedValue rt obj path = reduce_props rt obj (split_on CHR ''.'' path)"

text \<open>\<open>Boolean(value)\<close>\<close>

fun truthy :: "runtime \<Rightarrow> jsval \<Rightarrow> bool" where
  "truthy rt Undefined = False"
| "truthy rt Null = False"
| "truthy rt (Bool b) = b"
| "truthy rt (Num n) = (n \<noteq> 0)"
| "truthy rt (Str s) = (s \<noteq> [])"
| "truthy rt (Arr xs) = True"
| "truthy rt (Obj kvs) = True"
| "truthy rt (Other_number k) = number_truthy rt k"
| "truthy rt (Host h) = True"

text \<open>\<open>a || b\<close>\<close>

definition js_or :: "runtime \<Rightarrow> jsval \<Rightarrow> jsval \<Rightarrow> jsval" where
  "js_or rt a b = (if truthy rt a then a else b)"

text \<open>
  \<open>String(value)\<close> and the conversion \<open>replace\<close> applies to what its callback
  returns. An integer is written with all its digits as long as it is a safe integer;
  the text of the other numbers and of the built-in objects is the runtime's. A
  mapping with no own property \<open>toString\<close> is converted by
  \<open>Object.prototype.toString\<close>. An own property \<open>toString\<close> hides that method;
  when neither it nor an own \<open>valueOf\<close> is a built-in object, nothing is left to
  call and the conversion throws a TypeError. A sequence joins the conversions of its
  elements.
\<close>

fun sequence_res :: "('e + 'a) list \<Rightarrow> 'e + 'a list" where
  "sequence_res [] = Inr []"
| "sequence_res (x # xs) =
     (case x of Inl e \<Rightarrow> Inl e
      | Inr v \<Rightarrow> (case sequence_res xs of Inl e \<Rightarrow> Inl e | Inr vs \<Rightarrow> Inr (v # vs)))"

definition safe_integer :: "int \<Rightarrow> bool" where
  "safe_integer n = (- 9007199254740991 \<le> n \<and> n \<le> 9007199254740991)"

definition is_host :: "jsval \<Rightarrow> bool" where
  "is_host v = (case v of Host h \<Rightarrow> True | _ \<Rightarrow> False)"

definition own_method :: "(string \<times> jsval) list \<Rightarrow> string \<Rightarrow> bool" where
  "own_method kvs k = (case map_of kvs k of Some f \<Rightarrow> is_host f | None \<Rightarrow> False)"

fun to_string :: "runtime \<Rightarrow> jsval \<Rightarrow> exn + string" where
  "to_string rt Undefined = Inr ''undefined''"
| "to_string rt Null = Inr ''null''"
| "to_string rt (Bool b) = Inr (if b then ''true'' else ''false'')"
| "to_string rt (Num n) = (if safe_integer n then Inr (show_int n) else string_of rt (Num n))"
| "to_string rt (Other_number k) = string_of rt (Other_number k)"
| "to_string rt (Str s) = Inr s"
| "to_string rt (Arr xs) =
     (case sequence_res (map (\<lambda>x. if x = Undefined \<or> x = Null then Inr [] else to_string rt x) xs) of
        Inl e \<Rightarrow> Inl e
      | Inr ss \<Rightarrow> Inr (join '','' ss))"
| "to_string rt (Obj kvs) =
     (if map_of kvs ''toString'' = None then Inr ''[object Object]''
      else if own_method kvs ''toString'' \<or> own_method kvs ''valueOf'' then string_of rt (Obj kvs)
      else Inl TypeError)"
| "to_string rt (Host h) = string_of rt (Host h)"
section \<open>Regular expressions\<close>

text \<open>
  The four patterns of the engine are written with combinators that match the way a
  backtracking matcher does: each takes the continuation for the rest of the pattern
  and the input, and answers with the first way to match that the continuation
  accepts. A greedy quantifier tries the longest run first, a lazy one the shortest.
\<close>

definition lit :: "string \<Rightarrow> (string \<Rightarrow> 'a option) \<Rightarrow> string \<Rightarrow> 'a option" where
  "lit p k s = (if prefix p s then k (drop (length p) s) else None)"

fun star_greedy :: "(char \<Rightarrow> bool) \<Rightarrow> (string \<Rightarrow> string \<Rightarrow> 'a option) \<Rightarrow> string \<Rightarrow> 'a option" where
  "star_greedy P k [] = k [] []"
| "star_greedy P k (c # r) =
     (if P c then
        (case star_greedy P (\<lambda>a. k (c # a)) r of
           Some x \<Rightarrow> Some x
         | None \<Rightarrow> k [] (c # r))
      else k [] (c # r))"

fun plus_greedy :: "(char \<Rightarrow> bool) \<Rightarrow> (string \<Rightarrow> string \<Rightarrow> 'a option) \<Rightarrow> string \<Rightarrow> 'a option" where
  "plus_greedy P k [] = None"
| "plus_greedy P k (c # r) = (if P c then star_greedy P (\<lambda>a. k (c # a)) r else None)"

fun star_lazy :: "(char \<Rightarrow> bool) \<Rightarrow> (string \<Rightarrow> string \<Rightarrow> 'a option) \<Rightarrow> string \<Rightarrow> 'a option" where
  "star_lazy P k [] = k [] []"
| "star_lazy P k (c # r) =
     (case k [] (c # r) of
        Some x \<Rightarrow> Some x
      | None \<Rightarrow> if P c then star_lazy P (\<lambda>a. k (c # a)) r else None)"

text \<open>\<open>(?:g)?\<close>, greedy: with the group first, without it if that fails.\<close>

definition opt_greedy ::
  "(('c \<Rightarrow> string \<Rightarrow> 'a option) \<Rightarrow> string \<Rightarrow> 'a option) \<Rightarrow> ('c option \<Rightarrow> string \<Rightarrow> 'a option)
     \<Rightarrow> string \<Rightarrow> 'a option" where
  "opt_greedy g k s = (case g (\<lambda>c. k (Some c)) s of Some x \<Rightarrow> Some x | None \<Rightarrow> k None s)"

text \<open>The character classes.\<close>

definition any_char :: "char \<Rightarrow> bool" where
  "any_char c = True"

definition not_rbrace :: "char \<Rightarrow> bool" where
  "not_rbrace c = (c \<noteq> CHR ''}'')"

definition is_alnum :: "char \<Rightarrow> bool" where
  "is_alnum c =
     (let n = (of_char c :: nat)
      in (97 \<le> n \<and> n \<le> 122) \<or> (65 \<le> n \<and> n \<le> 90) \<or> (48 \<le> n \<and> n \<le> 57))"

definition helper_char :: "char \<Rightarrow> bool" where
  "helper_char c = (is_alnum c \<or> c = CHR ''_'')"

definition var_char :: "char \<Rightarrow> bool" where
  "var_char c = (is_alnum c \<or> c = CHR ''_'' \<or> c = CHR ''.'')"

text \<open>
  Each matcher tries its pattern at the start of the input and returns the captures
  and the input left after the match.

  \<^verbatim>\<open>/\{\{#if\s+([^}]+)\}\}([\s\S]*?)(?:\{\{#else\}\}([\s\S]*?))?\{\{\/if\}\}/g\<close>
\<close>

definition ifRegex :: "string \<Rightarrow> ((string \<times> string \<times> string option) \<times> string) option" where
  "ifRegex =
     lit ''{{#if'' (plus_greedy is_space (\<lambda>_. plus_greedy not_rbrace (\<lambda>condition.
     lit ''}}'' (star_lazy any_char (\<lambda>trueBranch.
     opt_greedy (\<lambda>k. lit ''{{#else}}'' (star_lazy any_char k)) (\<lambda>falseBranch.
     lit ''{{/if}}'' (\<lambda>rest. Some ((condition, trueBranch, falseBranch), rest))))))))"

text \<open>\<^verbatim>\<open>/\{\{#each\s+([^}]+)\}\}([\s\S]*?)\{\{\/each\}\}/g\<close>\<close>

definition eachRegex :: "string \<Rightarrow> ((string \<times> string) \<times> string) option" where
  "eachRegex =
     lit ''{{#each'' (plus_greedy is_space (\<lambda>_. plus_greedy not_rbrace (\<lambda>variable.
     lit ''}}'' (star_lazy any_char (\<lambda>loopContent.
     lit ''{{/each}}'' (\<lambda>rest. Some ((variable, loopContent), rest)))))))"

text \<open>\<^verbatim>\<open>/\{\{([a-zA-Z0-9_]+):([^}]+)\}\}/g\<close>\<close>

definition helperRegex :: "string \<Rightarrow> ((string \<times> string) \<times> string) option" where
  "helperRegex =
     lit ''{{'' (plus_greedy helper_char (\<lambda>helperName.
     lit '':'' (plus_greedy not_rbrace (\<lambda>args.
     lit ''}}'' (\<lambda>rest. Some ((helperName, args), rest))))))"

text \<open>\<^verbatim>\<open>/\{\{([a-zA-Z0-9_.]+)\}\}/g\<close>\<close>

definition varRegex :: "string \<Rightarrow> (string \<times> string) option" where
  "varRegex =
     lit ''{{'' (plus_greedy var_char (\<lambda>variable.
     lit ''}}'' (\<lambda>rest. Some (variable, rest))))"

text \<open>
  \<open>template.replace(regex, callback)\<close> with a global pattern first finds the matches
  from left to right, each search starting where the last match ended, then calls the
  callback on each. \<open>scan\<close> is the first half: the text cut into the characters no
  match covers and the matches, each with its captures and its text. None of the four
  patterns matches the empty string.
\<close>

datatype 'm seg = Chr char | Hit 'm string

function scan :: "(string \<Rightarrow> ('m \<times> string) option) \<Rightarrow> string \<Rightarrow> 'm seg list" where
  "scan re [] = []"
| "scan re (c # s) =
     (case re (c # s) of
        None \<Rightarrow> Chr c # scan re s
      | Some (m, rest) \<Rightarrow>
          Hit m (take (Suc (length s) - length rest) (c # s))
            # scan re (drop (length s - length rest) s))"
  by pat_completeness auto
termination
  by (relation "measure (\<lambda>(re, s). length s)") auto

text \<open>\<open>regex.test(s)\<close> with \<open>lastIndex\<close> at 0: is there a match anywhere.\<close>

fun regex_test :: "(string \<Rightarrow> ('m \<times> string) option) \<Rightarrow> string \<Rightarrow> bool" where
  "regex_test re [] = (re [] \<noteq> None)"
| "regex_test re (c # s) = (re (c # s) \<noteq> None \<or> regex_test re s)"

section \<open>What a match tells about the input\<close>

text \<open>
  A match splits the input as the pattern says; the termination of the engine rests on
  the lengths this gives.
\<close>

lemma lit_SomeD: "lit p k s = Some x \<Longrightarrow> \<exists>r. s = p @ r \<and> k r = Some x"
  by (auto simp: lit_def prefix_def split: if_splits)

lemma star_greedy_SomeD:
  "star_greedy P k s = Some x \<Longrightarrow> \<exists>a r. s = a @ r \<and> (\<forall>c\<in>set a. P c) \<and> k a r = Some x"
proof (induction s arbitrary: k)
  case Nil then show ?case by simp
next
  case (Cons c s)
  show ?case
  proof (cases "P c \<and> star_greedy P (\<lambda>a. k (c # a)) s \<noteq> None")
    case True
    with Cons.prems have "star_greedy P (\<lambda>a. k (c # a)) s = Some x" by auto
    from Cons.IH[OF this] obtain a r
      where "s = a @ r" "\<forall>c\<in>set a. P c" "k (c # a) r = Some x" by blast
    with True have "c # s = (c # a) @ r \<and> (\<forall>d\<in>set (c # a). P d) \<and> k (c # a) r = Some x"
      by simp
    then show ?thesis by blast
  next
    case False
    with Cons.prems have "k [] (c # s) = Some x" by (auto split: if_splits option.splits)
    then have "c # s = [] @ (c # s) \<and> (\<forall>d\<in>set []. P d) \<and> k [] (c # s) = Some x" by simp
    then show ?thesis by blast
  qed
qed

lemma plus_greedy_SomeD:
  assumes "plus_greedy P k s = Some x"
  shows "\<exists>a r. s = a @ r \<and> a \<noteq> [] \<and> (\<forall>c\<in>set a. P c) \<and> k a r = Some x"
proof (cases s)
  case Nil with assms show ?thesis by simp
next
  case (Cons c s')
  with assms have pc: "P c" and "star_greedy P (\<lambda>a. k (c # a)) s' = Some x"
    by (auto split: if_splits)
  from star_greedy_SomeD[OF this(2)] obtain a r
    where "s' = a @ r" "\<forall>c\<in>set a. P c" "k (c # a) r = Some x" by blast
  with Cons pc have "s = (c # a) @ r \<and> c # a \<noteq> [] \<and> (\<forall>d\<in>set (c # a). P d) \<and> k (c # a) r = Some x"
    by simp
  then show ?thesis by blast
qed

lemma star_lazy_SomeD:
  "star_lazy P k s = Some x \<Longrightarrow> \<exists>a r. s = a @ r \<and> k a r = Some x"
proof (induction s arbitrary: k)
  case Nil then show ?case by simp
next
  case (Cons c s)
  show ?case
  proof (cases "k [] (c # s)")
    case (Some y)
    with Cons.prems have "k [] (c # s) = Some x" by simp
    then have "c # s = [] @ (c # s) \<and> k [] (c # s) = Some x" by simp
    then show ?thesis by blast
  next
    case None
    with Cons.prems have "star_lazy P (\<lambda>a. k (c # a)) s = Some x" by (auto split: if_splits)
    from Cons.IH[OF this] obtain a r where "s = a @ r" "k (c # a) r = Some x" by blast
    then have "c # s = (c # a) @ r \<and> k (c # a) r = Some x" by simp
    then show ?thesis by blast
  qed
qed

lemma opt_greedy_SomeD:
  "opt_greedy g k s = Some x \<Longrightarrow> g (\<lambda>c. k (Some c)) s = Some x \<or> k None s = Some x"
  by (auto simp: opt_greedy_def split: option.splits)

lemma ifRegex_SomeD:
  assumes "ifRegex s = Some ((c, t, f), rest)"
  shows "length rest + length t + 16 \<le> length s
       \<and> (case f of None \<Rightarrow> True | Some fb \<Rightarrow> length rest + length fb + 16 \<le> length s)"
proof -
  from assms obtain r1 where r1: "s = ''{{#if'' @ r1"
    and 1: "plus_greedy is_space (\<lambda>_. plus_greedy not_rbrace (\<lambda>condition.
     lit ''}}'' (star_lazy any_char (\<lambda>trueBranch.
     opt_greedy (\<lambda>k. lit ''{{#else}}'' (star_lazy any_char k)) (\<lambda>falseBranch.
     lit ''{{/if}}'' (\<lambda>rest. Some ((condition, trueBranch, falseBranch), rest))))))) r1 = Some ((c, t, f), rest)"
    unfolding ifRegex_def by (blast dest: lit_SomeD)
  from plus_greedy_SomeD[OF 1] obtain a2 r2 where r2: "r1 = a2 @ r2" "a2 \<noteq> []"
    and 2: "plus_greedy not_rbrace (\<lambda>condition.
     lit ''}}'' (star_lazy any_char (\<lambda>trueBranch.
     opt_greedy (\<lambda>k. lit ''{{#else}}'' (star_lazy any_char k)) (\<lambda>falseBranch.
     lit ''{{/if}}'' (\<lambda>rest. Some ((condition, trueBranch, falseBranch), rest)))))) r2 = Some ((c, t, f), rest)"
    by blast
  from plus_greedy_SomeD[OF 2] obtain a3 r3 where r3: "r2 = a3 @ r3" "a3 \<noteq> []"
    and 3: "lit ''}}'' (star_lazy any_char (\<lambda>trueBranch.
     opt_greedy (\<lambda>k. lit ''{{#else}}'' (star_lazy any_char k)) (\<lambda>falseBranch.
     lit ''{{/if}}'' (\<lambda>rest. Some ((a3, trueBranch, falseBranch), rest))))) r3 = Some ((c, t, f), rest)"
    by blast
  from lit_SomeD[OF 3] obtain r4 where r4: "r3 = ''}}'' @ r4"
    and 4: "star_lazy any_char (\<lambda>trueBranch.
     opt_greedy (\<lambda>k. lit ''{{#else}}'' (star_lazy any_char k)) (\<lambda>falseBranch.
     lit ''{{/if}}'' (\<lambda>rest. Some ((a3, trueBranch, falseBranch), rest)))) r4 = Some ((c, t, f), rest)"
    by blast
  from star_lazy_SomeD[OF 4] obtain a5 r5 where r5: "r4 = a5 @ r5"
    and 5: "opt_greedy (\<lambda>k. lit ''{{#else}}'' (star_lazy any_char k)) (\<lambda>falseBranch.
     lit ''{{/if}}'' (\<lambda>rest. Some ((a3, a5, falseBranch), rest))) r5 = Some ((c, t, f), rest)"
    by blast
  have len: "length s = 5 + length a2 + length a3 + 2 + length a5 + length r5"
    using r1 r2 r3 r4 r5 by simp
  from opt_greedy_SomeD[OF 5] show ?thesis
  proof
    assume "lit ''{{#else}}'' (star_lazy any_char (\<lambda>c. lit ''{{/if}}'' (\<lambda>rest. Some ((a3, a5, Some c), rest)))) r5 = Some ((c, t, f), rest)"
    from lit_SomeD[OF this] obtain r6 where r6: "r5 = ''{{#else}}'' @ r6"
      and 6: "star_lazy any_char (\<lambda>c. lit ''{{/if}}'' (\<lambda>rest. Some ((a3, a5, Some c), rest))) r6 = Some ((c, t, f), rest)"
      by blast
    from star_lazy_SomeD[OF 6] obtain a7 r7 where r7: "r6 = a7 @ r7"
      and 7: "lit ''{{/if}}'' (\<lambda>rest. Some ((a3, a5, Some a7), rest)) r7 = Some ((c, t, f), rest)"
      by blast
    from lit_SomeD[OF 7] have "r7 = ''{{/if}}'' @ rest" "t = a5" "f = Some a7" by auto
    with len r6 r7 r2 r3 show ?thesis by (cases a2; cases a3) auto
  next
    assume "lit ''{{/if}}'' (\<lambda>rest. Some ((a3, a5, None), rest)) r5 = Some ((c, t, f), rest)"
    from lit_SomeD[OF this] have "r5 = ''{{/if}}'' @ rest" "t = a5" "f = None" by auto
    with len r2 r3 show ?thesis by (cases a2; cases a3) auto
  qed
qed

lemma eachRegex_SomeD:
  assumes "eachRegex s = Some ((v, b), rest)"
  shows "length rest + length b + 20 \<le> length s"
proof -
  from assms obtain r1 where r1: "s = ''{{#each'' @ r1"
    and 1: "plus_greedy is_space (\<lambda>_. plus_greedy not_rbrace (\<lambda>variable.
     lit ''}}'' (star_lazy any_char (\<lambda>loopContent.
     lit ''{{/each}}'' (\<lambda>rest. Some ((variable, loopContent), rest)))))) r1 = Some ((v, b), rest)"
    unfolding eachRegex_def by (blast dest: lit_SomeD)
  from plus_greedy_SomeD[OF 1] obtain a2 r2 where r2: "r1 = a2 @ r2" "a2 \<noteq> []"
    and 2: "plus_greedy not_rbrace (\<lambda>variable.
     lit ''}}'' (star_lazy any_char (\<lambda>loopContent.
     lit ''{{/each}}'' (\<lambda>rest. Some ((variable, loopContent), rest))))) r2 = Some ((v, b), rest)"
    by blast
  from plus_greedy_SomeD[OF 2] obtain a3 r3 where r3: "r2 = a3 @ r3" "a3 \<noteq> []"
    and 3: "lit ''}}'' (star_lazy any_char (\<lambda>loopContent.
     lit ''{{/each}}'' (\<lambda>rest. Some ((a3, loopContent), rest)))) r3 = Some ((v, b), rest)"
    by blast
  from lit_SomeD[OF 3] obtain r4 where r4: "r3 = ''}}'' @ r4"
    and 4: "star_lazy any_char (\<lambda>loopContent.
     lit ''{{/each}}'' (\<lambda>rest. Some ((a3, loopContent), rest))) r4 = Some ((v, b), rest)"
    by blast
  from star_lazy_SomeD[OF 4] obtain a5 r5 where r5: "r4 = a5 @ r5"
    and 5: "lit ''{{/each}}'' (\<lambda>rest. Some ((a3, a5), rest)) r5 = Some ((v, b), rest)"
    by blast
  from lit_SomeD[OF 5] have "r5 = ''{{/each}}'' @ rest" "b = a5" by auto
  with r1 r2 r3 r4 r5 show ?thesis by (cases a2; cases a3) auto
qed

text \<open>Every match of a scan is a match at some suffix of the text.\<close>

lemma scan_Hit_D:
  "Hit m t \<in> set (scan re s) \<Longrightarrow>
     \<exists>u rest. suffix u s \<and> re u = Some (m, rest) \<and> t = take (length u - length rest) u"
proof (induction re s rule: scan.induct)
  case (1 re) then show ?case by simp
next
  case (2 re c s)
  show ?case
  proof (cases "re (c # s)")
    case None
    with "2.prems" have "Hit m t \<in> set (scan re s)" by simp
    from "2.IH"(1)[OF None this] obtain u rest
      where "suffix u s" "re u = Some (m, rest)" "t = take (length u - length rest) u" by blast
    then have "suffix u (c # s) \<and> re u = Some (m, rest) \<and> t = take (length u - length rest) u"
      by (simp add: suffix_Cons)
    then show ?thesis by blast
  next
    case (Some p)
    obtain m' rest' where p: "p = (m', rest')" by (cases p)
    show ?thesis
    proof (cases "m = m' \<and> t = take (Suc (length s) - length rest') (c # s)")
      case True
      with Some p have "suffix (c # s) (c # s) \<and> re (c # s) = Some (m, rest')
          \<and> t = take (length (c # s) - length rest') (c # s)" by simp
      then show ?thesis by blast
    next
      case False
      with "2.prems" Some p have "Hit m t \<in> set (scan re (drop (length s - length rest') s))"
        by auto
      from "2.IH"(2)[OF Some p[symmetric] this] obtain u rest
        where u: "suffix u (drop (length s - length rest') s)" "re u = Some (m, rest)"
          "t = take (length u - length rest) u" by blast
      have "suffix (drop (length s - length rest') s) (c # s)"
        by (meson suffix_Cons suffix_drop)
      with u(1) have "suffix u (c # s)" by (rule suffix_order.trans)
      with u(2,3) show ?thesis by blast
    qed
  qed
qed

lemma each_body_shorter:
  assumes "Hit (v, b) t \<in> set (scan eachRegex s)"
  shows "length b < length s"
proof -
  from scan_Hit_D[OF assms] obtain u rest where "suffix u s" "eachRegex u = Some ((v, b), rest)"
    by blast
  then show ?thesis using eachRegex_SomeD[of u v b rest] suffix_length_le[of u s] by simp
qed

section \<open>Effects: exceptions and the console\<close>

text \<open>
  A step of the engine either returns or throws, and writes diagnostics to the console
  on the way: \<open>console.warn\<close> for a helper that is not found, \<open>console.error\<close>
  for a helper that threw. What was written stays written when an exception follows.
\<close>

datatype diag = Helper_not_found string | Error_in_helper string exn

type_synonym 'a eff = "(exn + 'a) \<times> diag list"

definition ret :: "'a \<Rightarrow> 'a eff" where
  "ret x = (Inr x, [])"

definition lift_res :: "exn + 'a \<Rightarrow> 'a eff" where
  "lift_res r = (r, [])"

definition bind :: "'a eff \<Rightarrow> ('a \<Rightarrow> 'b eff) \<Rightarrow> 'b eff" where
  "bind m f =
     (case m of
        (Inl e, l) \<Rightarrow> (Inl e, l)
      | (Inr x, l) \<Rightarrow> (case f x of (r, l') \<Rightarrow> (r, l @ l')))"

text \<open>\<open>items.map(callback)\<close>, from left to right, up to the first exception.\<close>

fun map_eff :: "('a \<Rightarrow> 'b eff) \<Rightarrow> 'a list \<Rightarrow> 'b list eff" where
  "map_eff f [] = ret []"
| "map_eff f (x # xs) = bind (f x) (\<lambda>y. bind (map_eff f xs) (\<lambda>ys. ret (y # ys)))"

text \<open>
  The second half of \<open>replace\<close>: the callback is called on each match in order, what
  it returns takes the place of the match, the other characters are kept.
\<close>

fun replace_eff :: "('m \<Rightarrow> string \<Rightarrow> string eff) \<Rightarrow> 'm seg list \<Rightarrow> string eff" where
  "replace_eff f [] = ret []"
| "replace_eff f (Chr c # segs) = bind (replace_eff f segs) (\<lambda>out. ret (c # out))"
| "replace_eff f (Hit m t # segs) =
     bind (f m t) (\<lambda>r. bind (replace_eff f segs) (\<lambda>out. ret (r @ out)))"

text \<open>
  The congruence rules say on which arguments a step calls its function; the
  definitions of the loop of \<open>processConditionals\<close> and of \<open>render\<close>, which runs
  on after a stage only when that stage returned, need them.
\<close>

lemma bind_cong [fundef_cong]:
  "m = m' \<Longrightarrow> (\<And>x l. m' = (Inr x, l) \<Longrightarrow> f x = g x) \<Longrightarrow> bind m f = bind m' g"
  by (auto simp: bind_def split: prod.splits sum.splits)

lemma map_eff_cong [fundef_cong]:
  "xs = ys \<Longrightarrow> (\<And>x. x \<in> set ys \<Longrightarrow> f x = g x) \<Longrightarrow> map_eff f xs = map_eff g ys"
  by (induction ys arbitrary: xs) (auto intro: bind_cong)

lemma replace_eff_cong [fundef_cong]:
  "segs = segs' \<Longrightarrow> (\<And>m t. Hit m t \<in> set segs' \<Longrightarrow> f m t = g m t)
     \<Longrightarrow> replace_eff f segs = replace_eff g segs'"
proof (induction g segs' arbitrary: segs rule: replace_eff.induct)
  case (1 f) then show ?case by simp
next
  case (2 f c segs) then show ?case by simp
next
  case (3 f m t segs) then show ?case by simp
qed

text \<open>A replacement that is shorter than each match makes the text shorter.\<close>

lemma replace_eff_length:
  assumes "\<And>u m rest r l. re u = Some (m, rest) \<Longrightarrow>
             length rest < length u
             \<and> (f m (take (length u - length rest) u) = (Inr r, l) \<longrightarrow> length r < length u - length rest)"
    and "replace_eff f (scan re s) = (Inr out, log)"
  shows "length out \<le> length s \<and> (regex_test re s \<longrightarrow> length out < length s)"
  using assms
proof (induction re s arbitrary: out log rule: scan.induct)
  case (1 re)
  show ?case
  proof (cases "re []")
    case None with "1.prems"(2) show ?thesis by (simp add: ret_def)
  next
    case (Some p)
    obtain m rest where "p = (m, rest)" by (cases p)
    with Some "1.prems"(1)[of "[]" m rest] show ?thesis by simp
  qed
next
  case (2 re c s)
  show ?case
  proof (cases "re (c # s)")
    case None
    with "2.prems"(2) obtain out' log' where o: "replace_eff f (scan re s) = (Inr out', log')"
      and out: "out = c # out'"
      by (auto simp: bind_def ret_def split: prod.splits sum.splits)
    from "2.IH"(1)[OF None "2.prems"(1) o] None out show ?thesis by simp
  next
    case (Some p)
    obtain m rest where p: "p = (m, rest)" by (cases p)
    let ?t = "take (Suc (length s) - length rest) (c # s)"
    let ?s' = "drop (length s - length rest) s"
    from "2.prems"(2) Some p obtain r l1 out' l2 where r: "f m ?t = (Inr r, l1)"
      and o: "replace_eff f (scan re ?s') = (Inr out', l2)" and out: "out = r @ out'"
      by (auto simp: bind_def ret_def split: prod.splits sum.splits)
    from "2.prems"(1)[of "c # s" m rest r l1] Some p r
    have a: "length rest < Suc (length s)" and b: "length r < Suc (length s) - length rest"
      by auto
    from "2.IH"(2)[OF Some p[symmetric] "2.prems"(1) o] have "length out' \<le> length ?s'" by blast
    with a have "length out' \<le> length rest" by simp
    with a b out have "length out < Suc (length s)" by simp
    then show ?thesis by simp
  qed
qed

section \<open>The template engine\<close>

text \<open>
  A helper is a function of the context and the arguments that returns a value or
  throws; it may read the clock of the runtime. The alias \<open>t\<close> is the one helper that
  goes back to the table, for whatever \<open>translate\<close> is then. \<open>nth_arg\<close> is a
  parameter of a helper: \<open>undefined\<close> when the call has fewer arguments.
\<close>

datatype helper =
    Native "runtime \<Rightarrow> ctx \<Rightarrow> jsval list \<Rightarrow> exn + jsval"
  | Call_translate

type_synonym helpers = "string \<Rightarrow> helper option"

text \<open>
  \<^verbatim>\<open>this.helpers[name] = fn\<close>
  (an own property under every name but \<open>__proto__\<close>, which no caller in the
  repository registers).
\<close>

definition registerHelper :: "helpers \<Rightarrow> string \<Rightarrow> helper \<Rightarrow> helpers" where
  "registerHelper H name fn = H(name \<mapsto> fn)"

text \<open>
  The table is \<^verbatim>\<open>private helpers: TemplateHelpers = {}\<close>, a mapping like any
  other: \<open>this.helpers[helperName]\<close> finds what was registered under the name and,
  failing that, what \<open>Object.prototype\<close> has under it.
\<close>

datatype found = Registered helper | Inherited string

definition find_helper :: "helpers \<Rightarrow> string \<Rightarrow> found option" where
  "find_helper H name =
     (case H name of
        Some h \<Rightarrow> Some (Registered h)
      | None \<Rightarrow> if name \<in> set object_prototype_names then Some (Inherited name) else None)"

definition nth_arg :: "jsval list \<Rightarrow> nat \<Rightarrow> jsval" where
  "nth_arg args i = (if i < length args then args ! i else Undefined)"

text \<open>\<open>this.helpers.translate(context, key)\<close> in the alias: \<open>translate\<close> is no member of \<open>Object.prototype\<close>.\<close>

definition call_registered :: "runtime \<Rightarrow> helpers \<Rightarrow> helper \<Rightarrow> ctx \<Rightarrow> jsval list \<Rightarrow> exn + jsval" where
  "call_registered rt H h context args =
     (case h of
        Native f \<Rightarrow> f rt context args
      | Call_translate \<Rightarrow>
          (case H ''translate'' of
             None \<Rightarrow> Inl TypeError
           | Some (Native f) \<Rightarrow> f rt context [nth_arg args 0]
           | Some Call_translate \<Rightarrow> Inl RangeError))"

text \<open>
  \<open>helper(context, ...argList)\<close> for a member of \<open>Object.prototype\<close>, called with
  no receiver: \<open>Object(context)\<close> is the context itself; \<open>toString\<close> names the
  class of its receiver \<open>undefined\<close>; the other functions convert the receiver to an
  object first, or call a method of it, and throw a TypeError, and under \<open>__proto__\<close>
  is the prototype, which is no function.
\<close>

definition call_inherited :: "string \<Rightarrow> ctx \<Rightarrow> exn + jsval" where
  "call_inherited name context =
     (if name = ''constructor'' then Inr (Obj context)
      else if name = ''toString'' then Inr (Str ''[object Undefined]'')
      else Inl TypeError)"

definition call_helper :: "runtime \<Rightarrow> helpers \<Rightarrow> found \<Rightarrow> ctx \<Rightarrow> jsval list \<Rightarrow> exn + jsval" where
  "call_helper rt H helper context args =
     (case helper of
        Registered h \<Rightarrow> call_registered rt H h context args
      | Inherited name \<Rightarrow> call_inherited name context)"

text \<open>
  \<open>evaluateCondition\<close>: a leading \<open>!\<close> negates what follows; else the path is
  looked up, a sequence counts as true when it is not empty and any other value by
  \<open>Boolean(value)\<close>. \<open>cond_value\<close> is the part after the negations.
\<close>

definition cond_value :: "runtime \<Rightarrow> ctx \<Rightarrow> string \<Rightarrow> exn + bool" where
  "cond_value rt context condition =
     bind_res (getNestedValue rt (Obj context) condition) (\<lambda>value.
     Inr (case value of Arr xs \<Rightarrow> length xs > 0 | v \<Rightarrow> truthy rt v))"

fun evaluateCondition :: "runtime \<Rightarrow> ctx \<Rightarrow> string \<Rightarrow> exn + bool" where
  "evaluateCondition rt context [] = cond_value rt context []"
| "evaluateCondition rt context (c # r) =
     (if c = CHR ''!'' then bind_res (evaluateCondition rt context r) (\<lambda>b. Inr (\<not> b))
      else cond_value rt context (c # r))"

text \<open>
  The callback of \<open>processConditionals\<close>:
  \<^verbatim>\<open>(match, condition, trueBranch, falseBranch = '') =>
    this.evaluateCondition(condition.trim(), context) ? trueBranch : falseBranch\<close>
\<close>

definition if_callback ::
  "runtime \<Rightarrow> ctx \<Rightarrow> string \<times> string \<times> string option \<Rightarrow> string \<Rightarrow> string eff" where
  "if_callback rt context = (\<lambda>(condition, trueBranch, falseBranch) match.
     lift_res (bind_res (evaluateCondition rt context (trim condition)) (\<lambda>conditionValue.
       Inr (if conditionValue then trueBranch
            else (case falseBranch of None \<Rightarrow> '''' | Some f \<Rightarrow> f)))))"

text \<open>
  A pass over the conditionals makes the text shorter whenever it finds a match; the
  loop of \<open>processConditionals\<close> runs while the text changed and a match is left.
\<close>

lemma if_callback_shorter:
  assumes "ifRegex u = Some (m, rest)"
  shows "length rest < length u
         \<and> (if_callback rt context m t = (Inr r, l) \<longrightarrow> length r < length u - length rest)"
proof -
  obtain c tb fb where m: "m = (c, tb, fb)" by (cases m)
  from ifRegex_SomeD[OF assms[unfolded m]] show ?thesis
    by (auto simp: m if_callback_def lift_res_def bind_res_def split: option.splits sum.splits)
qed

lemma if_pass_length_both:
  assumes "replace_eff (if_callback rt context) (scan ifRegex s) = (Inr out, log)"
  shows "length out \<le> length s \<and> (regex_test ifRegex s \<longrightarrow> length out < length s)"
proof (rule replace_eff_length[OF _ assms])
  fix u m rest r l
  assume "ifRegex u = Some (m, rest)"
  then show "length rest < length u
      \<and> (if_callback rt context m (take (length u - length rest) u) = (Inr r, l)
           \<longrightarrow> length r < length u - length rest)"
    by (rule if_callback_shorter)
qed

lemma if_pass_length:
  assumes "replace_eff (if_callback rt context) (scan ifRegex s) = (Inr out, log)"
  shows "length out \<le> length s" and "regex_test ifRegex s \<Longrightarrow> length out < length s"
  using if_pass_length_both[OF assms] by simp_all

text \<open>
  \<^verbatim>\<open>let output = template; let previousOutput = '';
  while (output !== previousOutput && ifRegex.test(output)) {
    previousOutput = output;
    output = output.replace(ifRegex, callback);
  }
  return output;\<close>
\<close>

function processConditionals_loop :: "runtime \<Rightarrow> ctx \<Rightarrow> string \<Rightarrow> string \<Rightarrow> string eff" where
  "processConditionals_loop rt context output previousOutput =
     (if output \<noteq> previousOutput \<and> regex_test ifRegex output
      then bind (replace_eff (if_callback rt context) (scan ifRegex output)) (\<lambda>replaced.
           processConditionals_loop rt context replaced output)
      else ret output)"
  by pat_completeness auto
termination
  by (relation "measure (\<lambda>(rt, context, output, previousOutput). length output)")
     (auto simp: if_pass_length)

declare processConditionals_loop.simps [simp del]

definition processConditionals :: "runtime \<Rightarrow> string \<Rightarrow> ctx \<Rightarrow> string eff" where
  "processConditionals rt template context = processConditionals_loop rt context template []"

lemma processConditionals_loop_length:
  "processConditionals_loop rt cx out prev = (Inr res, log) \<Longrightarrow> length res \<le> length out"
proof (induction rt cx out prev arbitrary: log rule: processConditionals_loop.induct)
  case (1 rt cx out prev)
  show ?case
  proof (cases "out \<noteq> prev \<and> regex_test ifRegex out")
    case True
    with "1.prems" obtain x l l' where x: "replace_eff (if_callback rt cx) (scan ifRegex out) = (Inr x, l)"
      and r: "processConditionals_loop rt cx x out = (Inr res, l')"
      by (subst (asm) processConditionals_loop.simps)
         (auto simp: bind_def split: prod.splits sum.splits)
    from "1.IH"[OF True x r] if_pass_length(1)[OF x] show ?thesis by simp
  next
    case False
    with "1.prems" show ?thesis
      by (subst (asm) processConditionals_loop.simps) (auto simp: ret_def)
  qed
qed

text \<open>What \<open>{...item}\<close> copies: the own enumerable properties.\<close>

fun spread :: "jsval \<Rightarrow> (string \<times> jsval) list" where
  "spread (Obj kvs) = kvs"
| "spread (Arr xs) = zip (map show_nat [0..<length xs]) xs"
| "spread (Str s) = zip (map show_nat [0..<length s]) (map (\<lambda>c. Str [c]) s)"
| "spread _ = []"

text \<open>
  \<^verbatim>\<open>{ ...context, ...item, '@index': index, '@first': index === 0,
    '@last': index === items.length - 1 }\<close>
  A later entry of the literal overrides an earlier one; a context is only ever read by
  key, from the front of the list, so the later entries come first.
\<close>

definition loopContext :: "ctx \<Rightarrow> jsval \<Rightarrow> nat \<Rightarrow> nat \<Rightarrow> ctx" where
  "loopContext context item index n =
     [(''@index'', Num (int index)),
      (''@first'', Bool (index = 0)),
      (''@last'', Bool (int index = int n - 1))] @ spread item @ context"

text \<open>
  The callback of \<open>processLoops\<close>, with the function that renders a body as a
  parameter, since that function is \<open>render\<close> itself:
  \<^verbatim>\<open>const items = getNestedValue(context, variable.trim());
  if (!Array.isArray(items)) return '';
  return items.map((item, index) => this.render(loopContent, loopContext)).join('');\<close>
\<close>

definition each_callback ::
  "runtime \<Rightarrow> (string \<Rightarrow> ctx \<Rightarrow> string eff) \<Rightarrow> ctx \<Rightarrow> string \<times> string \<Rightarrow> string \<Rightarrow> string eff" where
  "each_callback rt rnd context = (\<lambda>(variable, loopContent) match.
     (case getNestedValue rt (Obj context) (trim variable) of
        Inl error \<Rightarrow> (Inl error, [])
      | Inr items \<Rightarrow>
          (case items of
             Arr items \<Rightarrow>
               bind (map_eff (\<lambda>(index, item). rnd loopContent (loopContext context item index (length items)))
                       (enumerate 0 items))
                    (\<lambda>parts. ret (concat parts))
           | _ \<Rightarrow> ret [])))"

lemma each_callback_cong:
  "(\<And>c. rnd b c = rnd' b c) \<Longrightarrow>
     each_callback rt rnd context (v, b) t = each_callback rt rnd' context (v, b) t"
  by (simp add: each_callback_def split: jsval.splits sum.splits)

definition processLoops_with ::
  "runtime \<Rightarrow> (string \<Rightarrow> ctx \<Rightarrow> string eff) \<Rightarrow> string \<Rightarrow> ctx \<Rightarrow> string eff" where
  "processLoops_with rt rnd template context =
     replace_eff (each_callback rt rnd context) (scan eachRegex template)"

lemma processLoops_with_cong [fundef_cong]:
  assumes "template = template'" "context = context'"
    and "\<And>v b t c. Hit (v, b) t \<in> set (scan eachRegex template') \<Longrightarrow> rnd b c = rnd' b c"
  shows "processLoops_with rt rnd template context = processLoops_with rt rnd' template' context'"
  unfolding processLoops_with_def assms(1,2)
  by (rule replace_eff_cong[OF refl]) (auto intro!: each_callback_cong assms(3))

text \<open>
  The callback of \<open>processHelpers\<close>. The \<open>try\<close> covers the call of the helper;
  what the helper returned is converted to a string by \<open>replace\<close>, after the
  callback has returned.
  \<^verbatim>\<open>const helper = this.helpers[helperName];
  if (!helper) { console.warn(...); return match; }
  try {
    const argList = args.split(',').map((arg) => arg.trim());
    return helper(context, ...argList);
  } catch (error) { console.error(...); return match; }\<close>
\<close>

definition helper_callback ::
  "runtime \<Rightarrow> helpers \<Rightarrow> ctx \<Rightarrow> string \<times> string \<Rightarrow> string \<Rightarrow> string eff" where
  "helper_callback rt H context = (\<lambda>(helperName, args) match.
     (case find_helper H helperName of
        None \<Rightarrow> (Inr match, [Helper_not_found helperName])
      | Some helper \<Rightarrow>
          (case call_helper rt H helper context (map (\<lambda>arg. Str (trim arg)) (split_on CHR '','' args)) of
             Inl error \<Rightarrow> (Inr match, [Error_in_helper helperName error])
           | Inr v \<Rightarrow> lift_res (to_string rt v))))"

definition processHelpers :: "runtime \<Rightarrow> helpers \<Rightarrow> string \<Rightarrow> ctx \<Rightarrow> string eff" where
  "processHelpers rt H template context =
     replace_eff (helper_callback rt H context) (scan helperRegex template)"

text \<open>
  The callback of \<open>processVariables\<close>:
  \<^verbatim>\<open>const value = getNestedValue(context, variable.trim());
  return value !== undefined && value !== null ? String(value) : '';\<close>
\<close>

definition var_callback :: "runtime \<Rightarrow> ctx \<Rightarrow> string \<Rightarrow> string \<Rightarrow> string eff" where
  "var_callback rt context variable match =
     bind (lift_res (getNestedValue rt (Obj context) (trim variable))) (\<lambda>v.
     if v \<noteq> Undefined \<and> v \<noteq> Null then lift_res (to_string rt v) else ret [])"

definition processVariables :: "runtime \<Rightarrow> string \<Rightarrow> ctx \<Rightarrow> string eff" where
  "processVariables rt template context =
     replace_eff (var_callback rt context) (scan varRegex template)"

text \<open>
  \<open>render\<close>: the conditionals, the loops, the helpers, the variables, each stage on
  the output of the one before.
\<close>

function render :: "runtime \<Rightarrow> helpers \<Rightarrow> string \<Rightarrow> ctx \<Rightarrow> string eff" where
  "render rt H template context =
     bind (processConditionals rt template context) (\<lambda>output.
     bind (processLoops_with rt (render rt H) output context) (\<lambda>output.
     bind (processHelpers rt H output context) (\<lambda>output.
     processVariables rt output context)))"
  by pat_completeness auto
termination
proof (relation "measure (\<lambda>(rt, H, template, context). length template)")
  show "wf (measure (\<lambda>(rt, H, template, context). length template))" by simp
next
  fix rt :: runtime and H :: helpers and template :: string and cx :: ctx and x l v b t c
  assume "processConditionals rt template cx = (Inr x, l)"
    and "Hit (v, b) t \<in> set (scan eachRegex x)"
  then have "length b < length x" "length x \<le> length template"
    by (auto simp: processConditionals_def intro: each_body_shorter processConditionals_loop_length)
  then show "((rt, H, b, c), (rt, H, template, cx)) \<in> measure (\<lambda>(rt, H, template, context). length template)"
    by simp
qed

declare render.simps [simp del]

section \<open>The default helpers\<close>

text \<open>
  A helper reads the context, a mapping, by \<open>obj_prop\<close>. The engine calls a helper
  with the strings of its tag, and a parameter the tag does not give is
  \<open>undefined\<close>; a method of strings (\<open>split\<close>, \<open>startsWith\<close>, \<open>endsWith\<close>,
  \<open>toLowerCase\<close>) called on a value that is no string throws a TypeError, since no
  other prototype has these methods and no mapping of a project holds a function.
\<close>

definition dquote :: string where
  "dquote = [CHR 0x22]"

text \<open>\<open>getNestedValue(obj, key)\<close> where \<open>key\<close> may be anything: only a string has \<open>split\<close>.\<close>

definition getNestedValue_dyn :: "runtime \<Rightarrow> jsval \<Rightarrow> jsval \<Rightarrow> exn + jsval" where
  "getNestedValue_dyn rt obj path =
     (case path of Str p \<Rightarrow> getNestedValue rt obj p | _ \<Rightarrow> Inl TypeError)"

text \<open>
  The text of a value in \<open>'/' + value\<close>: that of \<open>String(value)\<close>, but a
  mapping is asked for its \<open>valueOf\<close> first, which matters when that is a built-in
  object of its own.
\<close>

definition plus_string :: "runtime \<Rightarrow> jsval \<Rightarrow> exn + string" where
  "plus_string rt v =
     (case v of
        Obj kvs \<Rightarrow> if own_method kvs ''valueOf'' then string_of rt (Obj kvs) else to_string rt (Obj kvs)
      | _ \<Rightarrow> to_string rt v)"

text \<open>\<open>array.join(sep)\<close>\<close>

definition array_join :: "runtime \<Rightarrow> string \<Rightarrow> jsval list \<Rightarrow> exn + string" where
  "array_join rt sep xs =
     (case sequence_res (map (\<lambda>x. if x = Undefined \<or> x = Null then Inr [] else to_string rt x) xs) of
        Inl e \<Rightarrow> Inl e
      | Inr ss \<Rightarrow> Inr (join sep ss))"

text \<open>\<open>toLowerCase\<close> on code units below 256.\<close>

definition to_lower :: "char \<Rightarrow> char" where
  "to_lower c =
     (let n = (of_char c :: nat)
      in if (65 \<le> n \<and> n \<le> 90) \<or> (192 \<le> n \<and> n \<le> 222 \<and> n \<noteq> 215) then char_of (n + 32) else c)"

text \<open>\<open>s.replace(/c/g, rep)\<close> for one character and for a doubled one.\<close>

definition replace_char :: "char \<Rightarrow> string \<Rightarrow> string \<Rightarrow> string" where
  "replace_char c rep s = concat (map (\<lambda>x. if x = c then rep else [x]) s)"

fun replace_pair :: "char \<Rightarrow> string \<Rightarrow> string \<Rightarrow> string" where
  "replace_pair c rep (x # y # r) =
     (if x = c \<and> y = c then rep @ replace_pair c rep r else x # replace_pair c rep (y # r))"
| "replace_pair c rep s = s"

text \<open>
  \<open>JSON.stringify(value)\<close>, \<open>None\<close> for \<open>undefined\<close>. The properties of a mapping
  are written in the order of its list. The JSON text of the numbers that are no safe
  integers and of the built-in objects is the runtime's, as is that of a mapping whose
  own \<open>toJSON\<close> is a built-in object.
\<close>

definition hex_digit :: "nat \<Rightarrow> char" where
  "hex_digit d = ''0123456789abcdef'' ! (d mod 16)"

definition json_char :: "char \<Rightarrow> string" where
  "json_char c =
     (let n = (of_char c :: nat)
      in if n = 0x22 then [CHR 0x5C, CHR 0x22]
         else if n = 0x5C then [CHR 0x5C, CHR 0x5C]
         else if n = 0x08 then [CHR 0x5C, CHR ''b'']
         else if n = 0x0C then [CHR 0x5C, CHR ''f'']
         else if n = 0x0A then [CHR 0x5C, CHR ''n'']
         else if n = 0x0D then [CHR 0x5C, CHR ''r'']
         else if n = 0x09 then [CHR 0x5C, CHR ''t'']
         else if n < 0x20 then [CHR 0x5C, CHR ''u'', CHR ''0'', CHR ''0'', hex_digit (n div 16), hex_digit n]
         else [c])"

definition json_quote :: "string \<Rightarrow> string" where
  "json_quote s = dquote @ concat (map json_char s) @ dquote"

fun json_stringify :: "runtime \<Rightarrow> jsval \<Rightarrow> exn + string option" where
  "json_stringify rt Undefined = Inr None"
| "json_stringify rt Null = Inr (Some ''null'')"
| "json_stringify rt (Bool b) = Inr (Some (if b then ''true'' else ''false''))"
| "json_stringify rt (Num n) = (if safe_integer n then Inr (Some (show_int n)) else json_of rt (Num n))"
| "json_stringify rt (Other_number k) = json_of rt (Other_number k)"
| "json_stringify rt (Str s) = Inr (Some (json_quote s))"
| "json_stringify rt (Host h) = json_of rt (Host h)"
| "json_stringify rt (Arr xs) =
     bind_res (sequence_res (map (json_stringify rt) xs)) (\<lambda>js.
     Inr (Some (''['' @ join '','' (map (\<lambda>j. case j of None \<Rightarrow> ''null'' | Some x \<Rightarrow> x) js) @ '']'')))"
| "json_stringify rt (Obj kvs) =
     (if own_method kvs ''toJSON'' then json_of rt (Obj kvs)
      else bind_res (sequence_res (map (\<lambda>(k, v). bind_res (json_stringify rt v) (\<lambda>j. Inr (k, j))) kvs)) (\<lambda>kjs.
           Inr (Some (''{'' @ join '','' (concat (map (\<lambda>(k, j). case j of
                                                         None \<Rightarrow> []
                                                       | Some x \<Rightarrow> [json_quote k @ '':'' @ x]) kjs)) @ ''}''))))"

text \<open>The helpers, in the order \<open>registerDefaultHelpers\<close> registers them.\<close>

text \<open>
  \<^verbatim>\<open>if (!context.localeData) { return key; }
  const translation = getNestedValue(context.localeData, key);
  return translation || key;\<close>
\<close>

definition translate_helper :: "runtime \<Rightarrow> ctx \<Rightarrow> jsval list \<Rightarrow> exn + jsval" where
  "translate_helper rt context args =
     (let key = nth_arg args 0;
          localeData = obj_prop context ''localeData''
      in if \<not> truthy rt localeData then Inr key
         else bind_res (getNestedValue_dyn rt localeData key) (\<lambda>translation.
              Inr (js_or rt translation key)))"

text \<open>\<^verbatim>\<open>context.currentLang || context.config.i18n?.defaultLocale || 'de'\<close>\<close>

definition current_lang :: "runtime \<Rightarrow> ctx \<Rightarrow> exn + jsval" where
  "current_lang rt context =
     (let a = obj_prop context ''currentLang''
      in if truthy rt a then Inr a
         else bind_res (get_member rt (obj_prop context ''config'') ''i18n'') (\<lambda>i18n.
              bind_res (get_prop rt i18n ''defaultLocale'') (\<lambda>defaultLocale.
              Inr (js_or rt defaultLocale (Str ''de'')))))"

definition currentLang_helper :: "runtime \<Rightarrow> ctx \<Rightarrow> jsval list \<Rightarrow> exn + jsval" where
  "currentLang_helper rt context args = current_lang rt context"

definition langPrefix_helper :: "runtime \<Rightarrow> ctx \<Rightarrow> jsval list \<Rightarrow> exn + jsval" where
  "langPrefix_helper rt context args = Inr (js_or rt (obj_prop context ''langPrefix'') (Str ''''))"

definition active_helper :: "runtime \<Rightarrow> ctx \<Rightarrow> jsval list \<Rightarrow> exn + jsval" where
  "active_helper rt context args =
     (let path = nth_arg args 0; customClasses = nth_arg args 1
      in bind_res (plus_string rt (js_or rt (obj_prop context ''activeNav'') (obj_prop context ''slug''))) (\<lambda>cur.
         let currentPath = ''/'' @ cur
         in (case path of
               Str p \<Rightarrow>
                 (let normalizedPath = (if endsWith p ''/'' then p else p @ ''/'');
                      normalizedCurrent = (if endsWith currentPath ''/'' then currentPath else currentPath @ ''/'');
                      isActive = (normalizedCurrent = normalizedPath
                                  \<or> (normalizedPath = ''/'' \<and> normalizedCurrent = ''/''))
                  in Inr (if isActive then js_or rt customClasses (Str ''active'') else Str ''''))
             | _ \<Rightarrow> Inl TypeError)))"

definition langActive_helper :: "runtime \<Rightarrow> ctx \<Rightarrow> jsval list \<Rightarrow> exn + jsval" where
  "langActive_helper rt context args =
     (let lang = nth_arg args 0; customClasses = nth_arg args 1
      in bind_res (current_lang rt context) (\<lambda>currentLang.
         (case (currentLang, lang) of
            (Str cl, Str l) \<Rightarrow>
              (let isActive = (map to_lower cl = map to_lower l)
               in Inr (if isActive then js_or rt customClasses (Str ''active'') else Str ''''))
          | _ \<Rightarrow> Inl TypeError)))"

definition icon_helper :: "runtime \<Rightarrow> ctx \<Rightarrow> jsval list \<Rightarrow> exn + jsval" where
  "icon_helper rt context args =
     (let name = nth_arg args 0; classes = drop 1 args
      in bind_res (get_member rt (obj_prop context ''config'') ''icons'') (\<lambda>iconLib.
         if iconLib = Str ''lucide'' then
           bind_res (if length classes > 0
                     then bind_res (array_join rt '' '' classes) (\<lambda>j. Inr ('' class='' @ dquote @ j @ dquote))
                     else Inr '''') (\<lambda>classStr.
           bind_res (to_string rt name) (\<lambda>n.
           Inr (Str (''<i data-lucide='' @ dquote @ n @ dquote @ classStr @ ''></i>''))))
         else
           bind_res (if length classes > 0
                     then bind_res (array_join rt '' '' classes) (\<lambda>j. Inr ('' '' @ j))
                     else Inr '''') (\<lambda>classStr.
           bind_res (to_string rt name) (\<lambda>n.
           Inr (Str (''<i class='' @ dquote @ ''fa fa-'' @ n @ classStr @ dquote @ ''></i>''))))))"

definition url_helper :: "runtime \<Rightarrow> ctx \<Rightarrow> jsval list \<Rightarrow> exn + jsval" where
  "url_helper rt context args =
     (let path = nth_arg args 0;
          baseUrl = js_or rt (obj_prop context ''baseUrl'') (Str '''');
          prefix = js_or rt (obj_prop context ''langPrefix'') (Str '''')
      in (case path of
            Str p \<Rightarrow>
              (let normalizedPath = (if startsWith p ''/'' then p else ''/'' @ p);
                   normalizedPath = (if normalizedPath \<noteq> ''/'' \<and> endsWith normalizedPath ''/''
                                     then butlast normalizedPath else normalizedPath)
               in bind_res (to_string rt baseUrl) (\<lambda>b.
                  bind_res (to_string rt prefix) (\<lambda>pr.
                  Inr (Str (b @ pr @ normalizedPath)))))
          | _ \<Rightarrow> Inl TypeError))"

definition asset_helper :: "runtime \<Rightarrow> ctx \<Rightarrow> jsval list \<Rightarrow> exn + jsval" where
  "asset_helper rt context args =
     (let path = nth_arg args 0;
          baseUrl = js_or rt (obj_prop context ''baseUrl'') (Str '''')
      in (case path of
            Str p \<Rightarrow>
              (let normalizedPath = (if startsWith p ''/'' then p else ''/'' @ p)
               in bind_res (to_string rt baseUrl) (\<lambda>b. Inr (Str (b @ normalizedPath))))
          | _ \<Rightarrow> Inl TypeError))"

text \<open>\<^verbatim>\<open>new Date().getFullYear().toString()\<close>\<close>

definition year_helper :: "runtime \<Rightarrow> ctx \<Rightarrow> jsval list \<Rightarrow> exn + jsval" where
  "year_helper rt context args = Inr (Str (show_nat (current_year rt)))"

text \<open>
  \<^verbatim>\<open>const value = typeof data === 'string' ? getNestedValue(context, data) : data;
  return JSON.stringify(value);\<close>
\<close>

definition json_helper :: "runtime \<Rightarrow> ctx \<Rightarrow> jsval list \<Rightarrow> exn + jsval" where
  "json_helper rt context args =
     (let data = nth_arg args 0
      in bind_res (case data of Str d \<Rightarrow> getNestedValue rt (Obj context) d | _ \<Rightarrow> Inr data) (\<lambda>v.
         bind_res (json_stringify rt v) (\<lambda>j.
         Inr (case j of None \<Rightarrow> Undefined | Some x \<Rightarrow> Str x))))"

definition escape_helper :: "runtime \<Rightarrow> ctx \<Rightarrow> jsval list \<Rightarrow> exn + jsval" where
  "escape_helper rt context args =
     (let text = nth_arg args 0
      in bind_res (case text of Str d \<Rightarrow> getNestedValue rt (Obj context) d | _ \<Rightarrow> Inr text) (\<lambda>v.
         (case v of
            Str s \<Rightarrow>
              Inr (Str (replace_pair CHR ''}'' ''&#125;&#125;''
                       (replace_pair CHR ''{'' ''&#123;&#123;''
                       (replace_char (CHR 0x27) ''&#39;''
                       (replace_char (CHR 0x22) ''&quot;''
                       (replace_char CHR ''>'' ''&gt;''
                       (replace_char CHR ''<'' ''&lt;''
                       (replace_char CHR ''&'' ''&amp;'' s))))))))
          | _ \<Rightarrow> Inr (Str ''''))))"

definition registerDefaultHelpers :: helpers where
  "registerDefaultHelpers =
     foldl (\<lambda>H (name, fn). registerHelper H name fn) Map.empty
       [(''translate'', Native translate_helper),
        (''t'', Call_translate),
        (''currentLang'', Native currentLang_helper),
        (''langPrefix'', Native langPrefix_helper),
        (''active'', Native active_helper),
        (''langActive'', Native langActive_helper),
        (''icon'', Native icon_helper),
        (''url'', Native url_helper),
        (''asset'', Native asset_helper),
        (''year'', Native year_helper),
        (''json'', Native json_helper),
        (''escape'', Native escape_helper)]"

text \<open>
  A runtime for the examples. Its clock shows the year 2025. Of the members of the
  built-in objects it has those the examples read, \<open>caller\<close> and \<open>arguments\<close> of
  the function \<open>Object\<close>, accessors that throw a TypeError, and no other. The text
  of a built-in function is the one V8 gives; its only number that is no safe integer
  is NaN. The general statements below hold for every runtime.
\<close>

definition example_runtime :: runtime where
  "example_runtime =
     \<lparr> current_year = 2025,
       inherited = (\<lambda>v k. if v = Host ''Object'' \<and> (k = ''caller'' \<or> k = ''arguments'')
                           then Inl TypeError else Inr Undefined),
       string_of = (\<lambda>v. case v of
                       Host h \<Rightarrow> Inr (if h = ''Object.prototype'' then ''[object Object]''
                                       else ''function '' @ h @ ''() { [native code] }'')
                     | Obj kvs \<Rightarrow> Inr ''[object Object]''
                     | _ \<Rightarrow> Inr ''NaN''),
       json_of = (\<lambda>v. case v of
                     Host h \<Rightarrow> Inr (if h = ''Object.prototype'' then Some ''{}'' else None)
                   | Obj kvs \<Rightarrow> Inr None
                   | _ \<Rightarrow> Inr (Some ''null'')),
       number_truthy = (\<lambda>k. False) \<rparr>"
section \<open>The locale prefix of the builder\<close>

record I18nConfig =
  defaultLocale :: string
  locales :: "string list"
  strategy :: "string option"

text \<open>Of the project configuration the builder reads, only \<open>i18n\<close> matters here.\<close>

record ProjectConfig =
  i18n :: "I18nConfig option"

definition getLangPrefix :: "ProjectConfig \<Rightarrow> string \<Rightarrow> string \<Rightarrow> string" where
  "getLangPrefix config locale dflt =
     (case i18n config of
        None \<Rightarrow> ''''
      | Some cfg \<Rightarrow>
          (let strat = (case strategy cfg of
                          None \<Rightarrow> ''prefix_except_default''
                        | Some s \<Rightarrow> if s = [] then ''prefix_except_default'' else s)
           in if strat = ''prefix_except_default'' \<and> locale = dflt then ''''
              else ''/'' @ locale))"

section \<open>Matches of the four patterns\<close>

lemma regex_at_end [simp]:
  "ifRegex [] = None" "eachRegex [] = None" "helperRegex [] = None" "varRegex [] = None"
  by (simp_all add: ifRegex_def eachRegex_def helperRegex_def varRegex_def lit_def)

declare scan.simps [simp del] regex_test.simps [simp del]

lemma scan_Nil [simp]: "scan re [] = []"
  by (simp add: scan.simps)

text \<open>The converse for a greedy run: the longest run is tried first.\<close>

lemma star_greedy_longest:
  "\<forall>c\<in>set a. P c \<Longrightarrow> r = [] \<or> \<not> P (hd r) \<Longrightarrow> k a r = Some x
     \<Longrightarrow> star_greedy P k (a @ r) = Some x"
proof (induction a arbitrary: k)
  case Nil
  then show ?case by (cases r) auto
next
  case (Cons c a)
  from Cons.prems have "star_greedy P (\<lambda>b. k (c # b)) (a @ r) = Some x"
    by (intro Cons.IH) auto
  with Cons.prems show ?case by simp
qed

lemma plus_greedy_longest:
  "a \<noteq> [] \<Longrightarrow> \<forall>c\<in>set a. P c \<Longrightarrow> r = [] \<or> \<not> P (hd r) \<Longrightarrow> k a r = Some x
     \<Longrightarrow> plus_greedy P k (a @ r) = Some x"
  by (cases a) (auto intro: star_greedy_longest)


lemma lit_append [simp]: "lit p k (p @ r) = k r"
  by (simp add: lit_def)

text \<open>Where a scan finds its matches.\<close>

lemma regex_test_iff: "regex_test re s \<longleftrightarrow> (\<exists>u. suffix u s \<and> re u \<noteq> None)"
proof (induction s)
  case Nil then show ?case by (simp add: regex_test.simps)
next
  case (Cons c s)
  show ?case
    by (auto simp: regex_test.simps Cons.IH suffix_Cons)
qed

lemma scan_no_match:
  "(\<And>u. suffix u s \<Longrightarrow> u \<noteq> [] \<Longrightarrow> re u = None) \<Longrightarrow> scan re s = map Chr s"
proof (induction s)
  case Nil then show ?case by simp
next
  case (Cons c s)
  have "re (c # s) = None" by (rule Cons.prems) auto
  moreover have "scan re s = map Chr s"
    by (rule Cons.IH) (auto intro: Cons.prems simp: suffix_Cons)
  ultimately show ?case by (simp add: scan.simps)
qed

lemma scan_skip:
  "(\<And>u. suffix u pre \<Longrightarrow> u \<noteq> [] \<Longrightarrow> re (u @ s) = None) \<Longrightarrow> scan re (pre @ s) = map Chr pre @ scan re s"
proof (induction pre)
  case Nil then show ?case by simp
next
  case (Cons c pre)
  have "re ((c # pre) @ s) = None" by (rule Cons.prems) auto
  moreover have "scan re (pre @ s) = map Chr pre @ scan re s"
    by (rule Cons.IH) (auto intro: Cons.prems simp: suffix_Cons)
  ultimately show ?case by (simp add: scan.simps)
qed

lemma scan_hit:
  "re (m @ rest) = Some (caps, rest) \<Longrightarrow> m \<noteq> [] \<Longrightarrow> scan re (m @ rest) = Hit caps m # scan re rest"
  by (cases m) (auto simp: scan.simps)

lemma helperRegex_SomeD:
  assumes "helperRegex u = Some ((n, a), rest)"
  shows "u = ''{{'' @ n @ '':'' @ a @ ''}}'' @ rest \<and> n \<noteq> [] \<and> (\<forall>c\<in>set n. helper_char c)
         \<and> a \<noteq> [] \<and> (\<forall>c\<in>set a. c \<noteq> CHR ''}'')"
proof -
  from assms obtain r1 where r1: "u = ''{{'' @ r1"
    and 1: "plus_greedy helper_char (\<lambda>helperName.
     lit '':'' (plus_greedy not_rbrace (\<lambda>args.
     lit ''}}'' (\<lambda>rest. Some ((helperName, args), rest))))) r1 = Some ((n, a), rest)"
    unfolding helperRegex_def by (blast dest: lit_SomeD)
  from plus_greedy_SomeD[OF 1] obtain a2 r2 where r2: "r1 = a2 @ r2" "a2 \<noteq> []" "\<forall>c\<in>set a2. helper_char c"
    and 2: "lit '':'' (plus_greedy not_rbrace (\<lambda>args.
     lit ''}}'' (\<lambda>rest. Some ((a2, args), rest)))) r2 = Some ((n, a), rest)"
    by blast
  from lit_SomeD[OF 2] obtain r3 where r3: "r2 = '':'' @ r3"
    and 3: "plus_greedy not_rbrace (\<lambda>args.
     lit ''}}'' (\<lambda>rest. Some ((a2, args), rest))) r3 = Some ((n, a), rest)"
    by blast
  from plus_greedy_SomeD[OF 3] obtain a4 r4 where r4: "r3 = a4 @ r4" "a4 \<noteq> []" "\<forall>c\<in>set a4. not_rbrace c"
    and 4: "lit ''}}'' (\<lambda>rest. Some ((a2, a4), rest)) r4 = Some ((n, a), rest)"
    by blast
  from lit_SomeD[OF 4] have "r4 = ''}}'' @ rest" "n = a2" "a = a4" by auto
  with r1 r2 r3 r4 show ?thesis by (simp add: not_rbrace_def)
qed

lemma varRegex_SomeD:
  assumes "varRegex u = Some (v, rest)"
  shows "u = ''{{'' @ v @ ''}}'' @ rest \<and> v \<noteq> [] \<and> (\<forall>c\<in>set v. var_char c)"
proof -
  from assms obtain r1 where r1: "u = ''{{'' @ r1"
    and 1: "plus_greedy var_char (\<lambda>variable. lit ''}}'' (\<lambda>rest. Some (variable, rest))) r1 = Some (v, rest)"
    unfolding varRegex_def by (blast dest: lit_SomeD)
  from plus_greedy_SomeD[OF 1] obtain a2 r2 where r2: "r1 = a2 @ r2" "a2 \<noteq> []" "\<forall>c\<in>set a2. var_char c"
    and 2: "lit ''}}'' (\<lambda>rest. Some (a2, rest)) r2 = Some (v, rest)"
    by blast
  from lit_SomeD[OF 2] have "r2 = ''}}'' @ rest" "v = a2" by auto
  with r1 r2 show ?thesis by simp
qed

lemma ifRegex_prefix: "ifRegex u = Some x \<Longrightarrow> prefix ''{{#if'' u"
  unfolding ifRegex_def by (auto dest!: lit_SomeD)

lemma eachRegex_prefix: "eachRegex u = Some x \<Longrightarrow> prefix ''{{#each'' u"
  unfolding eachRegex_def by (auto dest!: lit_SomeD)

text \<open>Every match starts with two opening braces.\<close>

lemma match_starts:
  "ifRegex u = Some x \<Longrightarrow> prefix ''{{'' u"
  "eachRegex u = Some y \<Longrightarrow> prefix ''{{'' u"
  "helperRegex u = Some y \<Longrightarrow> prefix ''{{'' u"
  "varRegex u = Some z \<Longrightarrow> prefix ''{{'' u"
  unfolding ifRegex_def eachRegex_def helperRegex_def varRegex_def
  by (auto dest!: lit_SomeD simp: prefix_def)

text \<open>Text without an opening brace passes every stage unchanged.\<close>

lemma scan_plain:
  assumes "CHR ''{'' \<notin> set s"
  shows "scan ifRegex s = map Chr s" "scan eachRegex s = map Chr s"
        "scan helperRegex s = map Chr s" "scan varRegex s = map Chr s"
proof -
  have no: "\<not> prefix ''{{'' u" if "suffix u s" for u
  proof
    assume "prefix ''{{'' u"
    then have "CHR ''{'' \<in> set u" by (auto simp: prefix_def)
    with that assms show False by (auto simp: suffix_def)
  qed
  show "scan ifRegex s = map Chr s"
    by (rule scan_no_match) (metis no match_starts(1) not_Some_eq)
  show "scan eachRegex s = map Chr s"
    by (rule scan_no_match) (metis no match_starts(2) not_Some_eq)
  show "scan helperRegex s = map Chr s"
    by (rule scan_no_match) (metis no match_starts(3) not_Some_eq)
  show "scan varRegex s = map Chr s"
    by (rule scan_no_match) (metis no match_starts(4) not_Some_eq)
qed

lemma class_facts [simp]:
  "\<not> helper_char CHR '':''" "\<not> helper_char CHR ''{''" "\<not> helper_char CHR ''}''" "\<not> helper_char CHR ''#''"
  "\<not> var_char CHR '':''" "\<not> var_char CHR ''{''" "\<not> var_char CHR ''}''" "\<not> var_char CHR ''@''"
  "\<not> not_rbrace CHR ''}''" "not_rbrace CHR '':''"
  by (simp_all add: helper_char_def var_char_def is_alnum_def not_rbrace_def)

lemma helper_char_var_char: "helper_char c \<Longrightarrow> var_char c"
  by (auto simp: helper_char_def var_char_def)

text \<open>The helper pattern on a tag \<open>{{name:args}}\<close>.\<close>

lemma helperRegex_tag:
  assumes "name \<noteq> []" "\<forall>c\<in>set name. helper_char c" "args \<noteq> []" "\<forall>c\<in>set args. c \<noteq> CHR ''}''"
  shows "helperRegex (''{{'' @ name @ '':'' @ args @ ''}}'' @ rest) = Some ((name, args), rest)"
proof -
  have 1: "plus_greedy not_rbrace (\<lambda>a. lit ''}}'' (\<lambda>rest. Some ((name, a), rest))) (args @ ''}}'' @ rest)
           = Some ((name, args), rest)"
  proof (rule plus_greedy_longest)
    show "args \<noteq> []" by fact
    show "\<forall>c\<in>set args. not_rbrace c" using assms(4) by (simp add: not_rbrace_def)
    show "''}}'' @ rest = [] \<or> \<not> not_rbrace (hd (''}}'' @ rest))" by simp
    show "lit ''}}'' (\<lambda>rest. Some ((name, args), rest)) (''}}'' @ rest) = Some ((name, args), rest)"
      by (rule lit_append)
  qed
  have 2: "plus_greedy helper_char (\<lambda>n. lit '':'' (plus_greedy not_rbrace (\<lambda>a.
          lit ''}}'' (\<lambda>rest. Some ((n, a), rest))))) (name @ '':'' @ args @ ''}}'' @ rest)
        = Some ((name, args), rest)"
  proof (rule plus_greedy_longest)
    show "name \<noteq> []" by fact
    show "\<forall>c\<in>set name. helper_char c" by fact
    show "'':'' @ args @ ''}}'' @ rest = [] \<or> \<not> helper_char (hd ('':'' @ args @ ''}}'' @ rest))" by simp
    show "lit '':'' (plus_greedy not_rbrace (\<lambda>a. lit ''}}'' (\<lambda>rest. Some ((name, a), rest))))
            ('':'' @ args @ ''}}'' @ rest) = Some ((name, args), rest)"
      unfolding lit_append by (rule 1)
  qed
  show ?thesis unfolding helperRegex_def lit_append by (rule 2)
qed

text \<open>When the only opening braces of a text are two in a row, a match can start only there.\<close>

lemma only_braces:
  "CHR ''{'' \<notin> set pre \<Longrightarrow> CHR ''{'' \<notin> set body \<Longrightarrow> suffix u (pre @ ''{{'' @ body)
     \<Longrightarrow> prefix ''{{'' u \<Longrightarrow> u = ''{{'' @ body"
proof (induction pre)
  case Nil
  from Nil.prems(4) obtain w where u: "u = CHR ''{'' # CHR ''{'' # w" by (auto simp: prefix_def)
  from Nil.prems(3) have "u = ''{{'' @ body \<or> u = CHR ''{'' # body \<or> suffix u body"
    by (auto simp: suffix_Cons)
  moreover have "u \<noteq> CHR ''{'' # body" using u Nil.prems(2) by auto
  moreover have "\<not> suffix u body" using u Nil.prems(2) by (auto simp: suffix_def)
  ultimately show ?case by blast
next
  case (Cons c pre)
  from Cons.prems(3) have "u = c # pre @ ''{{'' @ body \<or> suffix u (pre @ ''{{'' @ body)"
    by (auto simp: suffix_Cons)
  moreover have "u \<noteq> c # pre @ ''{{'' @ body" using Cons.prems(1,4) by (auto simp: prefix_def)
  ultimately have "suffix u (pre @ ''{{'' @ body)" by blast
  with Cons show ?case by simp
qed

lemma takeWhile_run:
  "\<forall>c\<in>set a. P c \<Longrightarrow> \<not> P x \<Longrightarrow> takeWhile P (a @ x # r) = a"
  by (induction a) auto

lemma tag_scans:
  assumes n: "name \<noteq> []" "\<forall>c\<in>set name. helper_char c"
    and a: "args \<noteq> []" "CHR ''}'' \<notin> set args" "CHR ''{'' \<notin> set args"
    and p: "CHR ''{'' \<notin> set pre" "CHR ''{'' \<notin> set post"
  defines "tag \<equiv> ''{{'' @ name @ '':'' @ args @ ''}}''"
  shows "\<not> regex_test ifRegex (pre @ tag @ post)"
    and "scan eachRegex (pre @ tag @ post) = map Chr (pre @ tag @ post)"
    and "scan helperRegex (pre @ tag @ post) = map Chr pre @ Hit (name, args) tag # map Chr post"
    and "scan varRegex (pre @ tag @ post) = map Chr (pre @ tag @ post)"
proof -
  let ?body = "name @ '':'' @ args @ ''}}'' @ post"
  have T: "pre @ tag @ post = pre @ ''{{'' @ ?body" by (simp add: tag_def)
  have nb: "CHR ''{'' \<notin> set ?body"
    using n(2) a(3) p(2) by auto
  have start: "u = ''{{'' @ ?body" if "suffix u (pre @ tag @ post)" "prefix ''{{'' u" for u
    using only_braces[OF p(1) nb] that unfolding T by blast
  have hd_name: "hd name \<noteq> CHR ''#''" using n by (cases name) auto
  have no_if: "ifRegex u = None" if "suffix u (pre @ tag @ post)" for u
  proof (rule ccontr)
    assume "ifRegex u \<noteq> None"
    then obtain x where x: "ifRegex u = Some x" by blast
    from start[OF that match_starts(1)[OF x]] ifRegex_prefix[OF x] hd_name n(1)
    show False by (cases name) (auto simp: prefix_def)
  qed
  show "\<not> regex_test ifRegex (pre @ tag @ post)"
    using no_if by (simp add: regex_test_iff)
  have no_each: "eachRegex u = None" if "suffix u (pre @ tag @ post)" for u
  proof (rule ccontr)
    assume "eachRegex u \<noteq> None"
    then obtain x where x: "eachRegex u = Some x" by blast
    from start[OF that match_starts(2)[OF x]] eachRegex_prefix[OF x] hd_name n(1)
    show False by (cases name) (auto simp: prefix_def)
  qed
  show "scan eachRegex (pre @ tag @ post) = map Chr (pre @ tag @ post)"
    by (rule scan_no_match) (rule no_each)
  have no_var: "varRegex u = None" if "suffix u (pre @ tag @ post)" for u
  proof (rule ccontr)
    assume "varRegex u \<noteq> None"
    then obtain v rest where x: "varRegex u = Some (v, rest)" by (cases "varRegex u") auto
    from varRegex_SomeD[OF x] have u: "u = ''{{'' @ v @ ''}}'' @ rest" and v: "\<forall>c\<in>set v. var_char c"
      by auto
    from start[OF that match_starts(4)[OF x]] u
    have eq: "v @ CHR ''}'' # (CHR ''}'' # rest) = name @ CHR '':'' # (args @ ''}}'' @ post)" by simp
    have "takeWhile var_char (v @ CHR ''}'' # (CHR ''}'' # rest)) = v"
      using v by (intro takeWhile_run) auto
    moreover have "takeWhile var_char (name @ CHR '':'' # (args @ ''}}'' @ post)) = name"
      using n(2) by (intro takeWhile_run) (auto intro: helper_char_var_char)
    ultimately have "v = name" using eq by simp
    with eq show False by simp
  qed
  show "scan varRegex (pre @ tag @ post) = map Chr (pre @ tag @ post)"
    by (rule scan_no_match) (rule no_var)
  have m: "helperRegex (tag @ post) = Some ((name, args), post)"
    unfolding tag_def using helperRegex_tag[OF n a(1), of post] a(2) by auto
  have "scan helperRegex (pre @ tag @ post) = map Chr pre @ scan helperRegex (tag @ post)"
  proof (rule scan_skip)
    fix u assume u: "suffix u pre" "u \<noteq> []"
    show "helperRegex (u @ tag @ post) = None"
    proof (rule ccontr)
      assume "helperRegex (u @ tag @ post) \<noteq> None"
      then obtain x where "helperRegex (u @ tag @ post) = Some x" by blast
      from match_starts(3)[OF this] u(2) have "hd u = CHR ''{''" by (cases u) (auto simp: prefix_def)
      moreover have "hd u \<in> set pre" using u by (metis hd_in_set set_mono_suffix subsetD)
      ultimately show False using p(1) by simp
    qed
  qed
  also have "scan helperRegex (tag @ post) = Hit (name, args) tag # scan helperRegex post"
    by (rule scan_hit[where re=helperRegex and m=tag and rest=post, OF m]) (simp add: tag_def)
  also have "scan helperRegex post = map Chr post" by (rule scan_plain(3)[OF p(2)])
  finally show "scan helperRegex (pre @ tag @ post) = map Chr pre @ Hit (name, args) tag # map Chr post" .
qed

section \<open>What the helper and the variable patterns match\<close>

lemma varRegex_tag:
  assumes "v \<noteq> []" "\<forall>c\<in>set v. var_char c"
  shows "varRegex (''{{'' @ v @ ''}}'' @ rest) = Some (v, rest)"
proof -
  have "plus_greedy var_char (\<lambda>variable. lit ''}}'' (\<lambda>rest. Some (variable, rest))) (v @ ''}}'' @ rest)
          = Some (v, rest)"
  proof (rule plus_greedy_longest)
    show "v \<noteq> []" by fact
    show "\<forall>c\<in>set v. var_char c" by fact
    show "''}}'' @ rest = [] \<or> \<not> var_char (hd (''}}'' @ rest))" by simp
    show "lit ''}}'' (\<lambda>rest. Some (v, rest)) (''}}'' @ rest) = Some (v, rest)" by (rule lit_append)
  qed
  then show ?thesis unfolding varRegex_def lit_append .
qed


lemma helperRegex_iff:
  "helperRegex u = Some ((n, a), rest) \<longleftrightarrow>
     u = ''{{'' @ n @ '':'' @ a @ ''}}'' @ rest \<and> n \<noteq> [] \<and> (\<forall>c\<in>set n. helper_char c)
     \<and> a \<noteq> [] \<and> (\<forall>c\<in>set a. c \<noteq> CHR ''}'')"
  using helperRegex_SomeD[of u n a rest] helperRegex_tag[of n a rest] by blast

lemma take_match: "take (length (p @ rest) - length rest) (p @ rest) = p"
  by simp

text \<open>The text of a match of the helper stage is a name, a colon and a segment of arguments in braces.\<close>

lemma helper_hit_text:
  assumes "Hit (n, a) t \<in> set (scan helperRegex s)"
  shows "t = ''{{'' @ n @ '':'' @ a @ ''}}'' \<and> n \<noteq> [] \<and> (\<forall>c\<in>set n. helper_char c)
         \<and> a \<noteq> [] \<and> (\<forall>c\<in>set a. c \<noteq> CHR ''}'')"
proof -
  from scan_Hit_D[OF assms] obtain u rest where u: "helperRegex u = Some ((n, a), rest)"
    and t: "t = take (length u - length rest) u" by blast
  from helperRegex_SomeD[OF u] have "u = (''{{'' @ n @ '':'' @ a @ ''}}'') @ rest" by simp
  with t have "t = ''{{'' @ n @ '':'' @ a @ ''}}''" by (simp only: take_match)
  with helperRegex_SomeD[OF u] show ?thesis by blast
qed

lemma var_hit_text:
  assumes "Hit v t \<in> set (scan varRegex s)"
  shows "t = ''{{'' @ v @ ''}}'' \<and> v \<noteq> [] \<and> (\<forall>c\<in>set v. var_char c)"
proof -
  from scan_Hit_D[OF assms] obtain u rest where u: "varRegex u = Some (v, rest)"
    and t: "t = take (length u - length rest) u" by blast
  from varRegex_SomeD[OF u] have "u = (''{{'' @ v @ ''}}'') @ rest" by simp
  with t have "t = ''{{'' @ v @ ''}}''" by (simp only: take_match)
  with varRegex_SomeD[OF u] show ?thesis by blast
qed










text \<open>The helper pattern does not match at a tag without a colon.\<close>

lemma helperRegex_no_colon:
  assumes "CHR '':'' \<notin> set name"
  shows "helperRegex (''{{'' @ name @ ''}}'' @ rest) = None"
proof (rule ccontr)
  assume "helperRegex (''{{'' @ name @ ''}}'' @ rest) \<noteq> None"
  then obtain n a R where "helperRegex (''{{'' @ name @ ''}}'' @ rest) = Some ((n, a), R)"
    by (cases "helperRegex (''{{'' @ name @ ''}}'' @ rest)") auto
  then have eq: "name @ CHR ''}'' # (CHR ''}'' # rest) = n @ CHR '':'' # (a @ ''}}'' @ R)"
    and n: "\<forall>c\<in>set n. helper_char c"
    by (simp_all add: helperRegex_iff)
  have "takeWhile helper_char (n @ CHR '':'' # (a @ ''}}'' @ R)) = n"
    using n by (intro takeWhile_run) auto
  moreover have "takeWhile helper_char (name @ CHR ''}'' # (CHR ''}'' # rest)) = takeWhile helper_char name"
    by (induction name) auto
  ultimately have tw: "takeWhile helper_char name = n" using eq by simp
  have "dropWhile helper_char (n @ CHR '':'' # (a @ ''}}'' @ R)) = CHR '':'' # (a @ ''}}'' @ R)"
    using n by (simp add: dropWhile_append3)
  moreover have "dropWhile helper_char (name @ CHR ''}'' # (CHR ''}'' # rest))
                   = dropWhile helper_char name @ CHR ''}'' # (CHR ''}'' # rest)"
    by (induction name) auto
  ultimately have d: "dropWhile helper_char name @ CHR ''}'' # (CHR ''}'' # rest) = CHR '':'' # (a @ ''}}'' @ R)"
    using eq by simp
  show False
  proof (cases "dropWhile helper_char name")
    case Nil with d show ?thesis by simp
  next
    case (Cons z zs)
    with d have "z = CHR '':''" by simp
    moreover have "z \<in> set name" using Cons by (metis list.set_intros(1) set_dropWhileD)
    ultimately show ?thesis using assms by simp
  qed
qed

text \<open>The helper stage copies a tag \<open>{{name}}\<close> of variable characters and goes on behind it.\<close>

lemma scan_helper_variable_tag:
  assumes "\<forall>c\<in>set name. var_char c"
  shows "scan helperRegex (''{{'' @ name @ ''}}'' @ rest)
           = map Chr (''{{'' @ name @ ''}}'') @ scan helperRegex rest"
proof -
  have nc: "CHR '':'' \<notin> set name" "CHR ''{'' \<notin> set name" using assms by auto
  have "scan helperRegex ((''{{'' @ name @ ''}}'') @ rest) = map Chr (''{{'' @ name @ ''}}'') @ scan helperRegex rest"
  proof (rule scan_skip)
    fix u assume u: "suffix u (''{{'' @ name @ ''}}'')" "u \<noteq> []"
    then consider "u = ''{{'' @ name @ ''}}''" | "suffix u (CHR ''{'' # name @ ''}}'')"
      by (auto simp: suffix_Cons)
    then show "helperRegex (u @ rest) = None"
    proof cases
      case 1
      then show ?thesis using helperRegex_no_colon[OF nc(1), of rest] by simp
    next
      case 2
      have "\<not> prefix ''{{'' (u @ rest)"
      proof
        assume p: "prefix ''{{'' (u @ rest)"
        from 2 consider "u = CHR ''{'' # name @ ''}}''" | "suffix u (name @ ''}}'')"
          by (auto simp: suffix_Cons)
        then show False
        proof cases
          case 1
          with p nc(2) show False by (cases name) (auto simp: prefix_def)
        next
          case 2
          with u(2) have "hd u \<in> set (name @ ''}}'')" by (metis hd_in_set set_mono_suffix subsetD)
          then have "hd u \<noteq> CHR ''{''" using nc(2) by auto
          with p u(2) show False by (cases u) (auto simp: prefix_def)
        qed
      qed
      then show ?thesis using match_starts(3)[of "u @ rest"] by (cases "helperRegex (u @ rest)") auto
    qed
  qed
  then show ?thesis by simp
qed
section \<open>Laws of the effects and of the stages\<close>

lemma bind_ret [simp]: "bind (ret x) f = f x"
  by (cases "f x") (simp add: bind_def ret_def)

lemma bind_ret_right [simp]: "bind m ret = m"
  by (cases m) (auto simp: bind_def ret_def split: sum.splits)

lemma bind_Inr [simp]: "bind (Inr x, l) f = (fst (f x), l @ snd (f x))"
  by (cases "f x") (simp add: bind_def)

lemma bind_Inl [simp]: "bind (Inl e, l) f = (Inl e, l)"
  by (simp add: bind_def)

lemma bind_assoc: "bind (bind m f) g = bind m (\<lambda>x. bind (f x) g)"
  by (cases m) (auto simp: bind_def split: sum.splits prod.splits)

lemma bind_returns:
  "bind m f = (Inr y, log) \<longleftrightarrow> (\<exists>x l l'. m = (Inr x, l) \<and> f x = (Inr y, l') \<and> log = l @ l')"
  by (cases m) (auto simp: bind_def split: sum.splits prod.splits)


lemma replace_eff_Chr [simp]: "replace_eff f (map Chr s) = ret s"
  by (induction s) simp_all

lemma replace_eff_append:
  "replace_eff f (xs @ ys) =
     bind (replace_eff f xs) (\<lambda>a. bind (replace_eff f ys) (\<lambda>b. ret (a @ b)))"
proof (induction xs rule: replace_eff.induct[of _ f])
  case (1 f) show ?case by simp
next
  case (2 f c segs)
  then show ?case by (simp add: bind_assoc)
next
  case (3 f m t segs)
  then show ?case by (simp add: bind_assoc)
qed

text \<open>Reading a mapping never throws; a path of one key is one read.\<close>

lemma split_on_absent: "c \<notin> set s \<Longrightarrow> split_on c s = [s]"
  by (induction s) auto

lemma getNestedValue_key:
  "CHR ''.'' \<notin> set key \<Longrightarrow> getNestedValue rt (Obj kvs) key = Inr (obj_prop kvs key)"
  by (simp add: getNestedValue_def split_on_absent)

lemma reduce_props_Undefined [simp]: "reduce_props rt Undefined ks = Inr Undefined"
  by (induction ks) auto

lemma getNestedValue_Undefined [simp]: "getNestedValue rt Undefined path = Inr Undefined"
  by (simp add: getNestedValue_def)

lemma obj_prop_own: "map_of kvs k = Some v \<Longrightarrow> obj_prop kvs k = v"
  by (simp add: obj_prop_def)

lemma obj_prop_absent:
  "map_of kvs k = None \<Longrightarrow> k \<notin> set object_prototype_names \<Longrightarrow> obj_prop kvs k = Undefined"
  by (simp add: obj_prop_def object_prototype_def object_prototype_names_def)

text \<open>The loop of the conditionals.\<close>

declare evaluateCondition.simps [simp del]

lemma if_callback_returns:
  "evaluateCondition rt cx (trim c) = Inr b \<Longrightarrow>
     if_callback rt cx (c, tb, fb) m = ret (if b then tb else (case fb of None \<Rightarrow> [] | Some f \<Rightarrow> f))"
  by (simp add: if_callback_def lift_res_def bind_res_def ret_def)

lemma if_callback_throws:
  "evaluateCondition rt cx (trim c) = Inl e \<Longrightarrow> if_callback rt cx (c, tb, fb) m = (Inl e, [])"
  by (simp add: if_callback_def lift_res_def bind_res_def)

lemma regex_test_Nil [simp]: "\<not> regex_test ifRegex []"
  by (simp add: regex_test.simps)

lemma processConditionals_no_match:
  "\<not> regex_test ifRegex s \<Longrightarrow> processConditionals rt s cx = ret s"
  by (simp add: processConditionals_def processConditionals_loop.simps)

lemma processConditionals_step:
  "regex_test ifRegex s \<Longrightarrow>
     processConditionals rt s cx =
       bind (replace_eff (if_callback rt cx) (scan ifRegex s)) (\<lambda>replaced.
       processConditionals_loop rt cx replaced s)"
  by (cases s) (simp_all add: processConditionals_def processConditionals_loop.simps[of _ _ _ "[]"])

lemma loop_step:
  "regex_test ifRegex s \<Longrightarrow> s \<noteq> p \<Longrightarrow>
     processConditionals_loop rt cx s p =
       bind (replace_eff (if_callback rt cx) (scan ifRegex s)) (\<lambda>replaced.
       processConditionals_loop rt cx replaced s)"
  by (simp add: processConditionals_loop.simps[of _ _ s p])

lemma loop_stop:
  "\<not> regex_test ifRegex s \<Longrightarrow> processConditionals_loop rt cx s p = ret s"
  by (simp add: processConditionals_loop.simps[of _ _ s p])


text \<open>The stages in a row.\<close>

lemma render_after_conditionals:
  assumes "processConditionals rt t cx = (Inr s, [])" "scan eachRegex s = map Chr s"
    "scan helperRegex s = map Chr s" "scan varRegex s = map Chr s"
  shows "render rt H t cx = (Inr s, [])"
  using assms
  by (simp add: render.simps processLoops_with_def processHelpers_def processVariables_def ret_def)

lemma render_verbatim:
  assumes "\<not> regex_test ifRegex s" "scan eachRegex s = map Chr s"
    "scan helperRegex s = map Chr s" "scan varRegex s = map Chr s"
  shows "render rt H s cx = (Inr s, [])"
  by (rule render_after_conditionals[OF _ assms(2-4)])
     (simp add: processConditionals_no_match[OF assms(1)] ret_def)

lemma processHelpers_at_tag:
  assumes "scan helperRegex template = before @ Hit (name, args) tag # after"
  shows "processHelpers rt H template context =
           bind (replace_eff (helper_callback rt H context) before) (\<lambda>o1.
           bind (helper_callback rt H context (name, args) tag) (\<lambda>r.
           bind (replace_eff (helper_callback rt H context) after) (\<lambda>o2.
           ret (o1 @ r @ o2))))"
  by (simp add: processHelpers_def assms replace_eff_append bind_assoc)

lemma processVariables_plain:
  "CHR ''{'' \<notin> set s \<Longrightarrow> processVariables rt s cx = ret s"
  by (simp add: processVariables_def scan_plain(4))

text \<open>A template that is one helper tag between texts without opening braces.\<close>

lemma render_single_tag:
  assumes "name \<noteq> []" "\<forall>c\<in>set name. helper_char c" "args \<noteq> []"
    "CHR ''}'' \<notin> set args" "CHR ''{'' \<notin> set args"
    "CHR ''{'' \<notin> set pre" "CHR ''{'' \<notin> set post"
  shows "render rt H (pre @ ''{{'' @ name @ '':'' @ args @ ''}}'' @ post) cx =
           bind (helper_callback rt H cx (name, args) (''{{'' @ name @ '':'' @ args @ ''}}''))
             (\<lambda>r. processVariables rt (pre @ r @ post) cx)"
proof -
  let ?tag = "''{{'' @ name @ '':'' @ args @ ''}}''"
  let ?T = "pre @ ?tag @ post"
  from assms have s: "\<not> regex_test ifRegex ?T" "scan eachRegex ?T = map Chr ?T"
    "scan helperRegex ?T = map Chr pre @ Hit (name, args) ?tag # map Chr post"
    using tag_scans[of name args pre post] by blast+
  have 1: "processConditionals rt ?T cx = ret ?T" by (rule processConditionals_no_match[OF s(1)])
  have 2: "processLoops_with rt (render rt H) ?T cx = ret ?T"
    by (simp only: processLoops_with_def s(2) replace_eff_Chr)
  have 3: "processHelpers rt H ?T cx =
             bind (helper_callback rt H cx (name, args) ?tag) (\<lambda>r. ret (pre @ r @ post))"
    by (simp only: processHelpers_at_tag[OF s(3)] replace_eff_Chr bind_ret)
  have "render rt H ?T cx =
          bind (helper_callback rt H cx (name, args) ?tag) (\<lambda>r. processVariables rt (pre @ r @ post) cx)"
    by (subst render.simps) (simp only: 1 2 3 bind_ret bind_assoc)
  then show ?thesis by simp
qed

text \<open>A helper that returns a string without an opening brace.\<close>

lemma render_single_tag_value:
  assumes "name \<noteq> []" "\<forall>c\<in>set name. helper_char c" "args \<noteq> []"
    "CHR ''}'' \<notin> set args" "CHR ''{'' \<notin> set args"
    "CHR ''{'' \<notin> set pre" "CHR ''{'' \<notin> set post"
    and "find_helper H name = Some h"
    and "call_helper rt H h cx (map (\<lambda>arg. Str (trim arg)) (split_on CHR '','' args)) = Inr (Str out)"
    and "CHR ''{'' \<notin> set out"
  shows "render rt H (pre @ ''{{'' @ name @ '':'' @ args @ ''}}'' @ post) cx = (Inr (pre @ out @ post), [])"
proof -
  have "helper_callback rt H cx (name, args) (''{{'' @ name @ '':'' @ args @ ''}}'') = (Inr out, [])"
    using assms(8,9) by (simp add: helper_callback_def lift_res_def)
  moreover have "processVariables rt (pre @ out @ post) cx = ret (pre @ out @ post)"
    using assms(6,7,10) by (intro processVariables_plain) simp
  ultimately show ?thesis
    unfolding render_single_tag[OF assms(1-7)] by (simp add: ret_def)
qed

lemma default_helpers:
  "registerDefaultHelpers ''translate'' = Some (Native translate_helper)"
  "registerDefaultHelpers ''t'' = Some Call_translate"
  "registerDefaultHelpers ''url'' = Some (Native url_helper)"
  "registerDefaultHelpers ''year'' = Some (Native year_helper)"
  "registerDefaultHelpers ''json'' = Some (Native json_helper)"
  by (simp_all add: registerDefaultHelpers_def registerHelper_def)

lemma find_default_helpers:
  "find_helper registerDefaultHelpers ''translate'' = Some (Registered (Native translate_helper))"
  "find_helper registerDefaultHelpers ''t'' = Some (Registered Call_translate)"
  "find_helper registerDefaultHelpers ''url'' = Some (Registered (Native url_helper))"
  "find_helper registerDefaultHelpers ''year'' = Some (Registered (Native year_helper))"
  "find_helper registerDefaultHelpers ''json'' = Some (Registered (Native json_helper))"
  by (simp_all add: find_helper_def default_helpers)

lemma helper_chars [simp]:
  "helper_char CHR ''a''" "helper_char CHR ''e''" "helper_char CHR ''l''" "helper_char CHR ''n''"
  "helper_char CHR ''r''" "helper_char CHR ''s''" "helper_char CHR ''t''" "helper_char CHR ''y''"
  by (simp_all add: helper_char_def is_alnum_def)

lemma show_nat_digits: "set (show_nat n) \<subseteq> set ''0123456789''"
proof (induction n rule: show_nat.induct)
  case (1 n)
  have d: "digit_char k \<in> set ''0123456789''" for k
    unfolding digit_char_def by (rule nth_mem) simp
  show ?case
  proof (cases "n < 10")
    case True
    then show ?thesis using d[of n] by (subst show_nat.simps) simp
  next
    case False
    then show ?thesis using "1.IH" d[of "n mod 10"] by (subst show_nat.simps) simp
  qed
qed

text \<open>A render whose loop stage finds no match, stage by stage.\<close>

lemma render_stages:
  assumes "processConditionals rt t cx = (Inr s1, [])" "scan eachRegex s1 = map Chr s1"
    "processHelpers rt H s1 cx = (Inr s2, l2)" "processVariables rt s2 cx = (r, l3)"
  shows "render rt H t cx = (r, l2 @ l3)"
  by (subst render.simps) (simp add: assms processLoops_with_def ret_def)
section \<open>Tags of variables and of loops\<close>

text \<open>A tag \<open>{{name}}\<close> of variable characters, at each of the four stages.\<close>

lemma variable_tag_scans:
  assumes "name \<noteq> []" "\<forall>c\<in>set name. var_char c"
  defines "tag \<equiv> ''{{'' @ name @ ''}}''"
  shows "\<not> regex_test ifRegex tag" "scan eachRegex tag = map Chr tag"
    "scan helperRegex tag = map Chr tag" "scan varRegex tag = [Hit name tag]"
proof -
  have nb: "CHR ''{'' \<notin> set (name @ ''}}'')" using assms(2) by auto
  have hash: "hd name \<noteq> CHR ''#''"
    using assms(1,2) by (cases name) (auto simp: var_char_def is_alnum_def)
  have start: "u = tag" if "suffix u tag" "prefix ''{{'' u" for u
    using only_braces[of "[]" "name @ ''}}''" u] nb that by (simp add: tag_def)
  have no_if: "ifRegex u = None" if "suffix u tag" for u
  proof (rule ccontr)
    assume "ifRegex u \<noteq> None"
    then obtain x where x: "ifRegex u = Some x" by blast
    from start[OF that match_starts(1)[OF x]] ifRegex_prefix[OF x] hash assms(1)
    show False by (cases name) (auto simp: prefix_def tag_def)
  qed
  then show "\<not> regex_test ifRegex tag" by (simp add: regex_test_iff)
  have no_each: "eachRegex u = None" if "suffix u tag" for u
  proof (rule ccontr)
    assume "eachRegex u \<noteq> None"
    then obtain x where x: "eachRegex u = Some x" by blast
    from start[OF that match_starts(2)[OF x]] eachRegex_prefix[OF x] hash assms(1)
    show False by (cases name) (auto simp: prefix_def tag_def)
  qed
  show "scan eachRegex tag = map Chr tag" by (rule scan_no_match) (rule no_each)
  show "scan helperRegex tag = map Chr tag"
    using scan_helper_variable_tag[OF assms(2), of "[]"] by (simp add: tag_def)
  have "scan varRegex (tag @ []) = Hit name tag # scan varRegex []"
    by (rule scan_hit[where re=varRegex and m=tag and rest="[]"])
       (use varRegex_tag[OF assms(1,2), of "[]"] in \<open>simp_all add: tag_def\<close>)
  then show "scan varRegex tag = [Hit name tag]" by simp
qed

lemma render_variable_tag:
  assumes "name \<noteq> []" "\<forall>c\<in>set name. var_char c"
  shows "render rt H (''{{'' @ name @ ''}}'') cx = var_callback rt cx name (''{{'' @ name @ ''}}'')"
proof -
  let ?tag = "''{{'' @ name @ ''}}''"
  note s = variable_tag_scans[OF assms]
  have 1: "processConditionals rt ?tag cx = ret ?tag" by (rule processConditionals_no_match[OF s(1)])
  have 2: "processLoops_with rt (render rt H) ?tag cx = ret ?tag"
    by (simp only: processLoops_with_def s(2) replace_eff_Chr)
  have 3: "processHelpers rt H ?tag cx = ret ?tag"
    by (simp only: processHelpers_def s(3) replace_eff_Chr)
  have 4: "processVariables rt ?tag cx = var_callback rt cx name ?tag"
    by (simp only: processVariables_def s(4)) simp
  show ?thesis
    by (subst render.simps) (simp only: 1 2 3 4 bind_ret)
qed



text \<open>Where every callback of a stage returns, the stage returns.\<close>

lemma replace_eff_all_return:
  "(\<And>m t. Hit m t \<in> set segs \<Longrightarrow> \<exists>r l. f m t = (Inr r, l))
     \<Longrightarrow> \<exists>out log. replace_eff f segs = (Inr out, log)"
proof (induction f segs rule: replace_eff.induct)
  case (1 f) then show ?case by (simp add: ret_def)
next
  case (2 f c segs)
  then obtain out log where "replace_eff f segs = (Inr out, log)" by auto
  then show ?case by (simp add: ret_def)
next
  case (3 f m t segs)
  from "3.prems"[of m t] obtain r l where "f m t = (Inr r, l)" by auto
  moreover from 3 obtain out log where "replace_eff f segs = (Inr out, log)" by auto
  ultimately show ?case by (simp add: ret_def)
qed

lemma is_space_blank [simp]: "is_space CHR '' ''"
  by (simp add: is_space_def)

lemma is_space_not_rbrace: "is_space c \<Longrightarrow> not_rbrace c"
  by (auto simp: is_space_def not_rbrace_def)







lemma eachRegex_no_path:
  "eachRegex (''{{#each}}'' @ rest) = None"
  "is_space x \<Longrightarrow> eachRegex (''{{#each'' @ [x] @ ''}}'' @ rest) = None"
proof -
  have "eachRegex (''{{#each'' @ ''}}'' @ rest) = None"
    unfolding eachRegex_def lit_append by (simp add: is_space_def)
  then show "eachRegex (''{{#each}}'' @ rest) = None" by simp
  assume "is_space x"
  then show "eachRegex (''{{#each'' @ [x] @ ''}}'' @ rest) = None"
    unfolding eachRegex_def lit_append by (simp add: is_space_def)
qed








section \<open>The url helper at the root path\<close>

text \<open>
  C1: the claim is that \<open>{{url:/}}\<close> renders as the base URL followed by \<open>/\<close> and
  never takes the locale prefix, which is also what the tests of the engine expect
  (\<open>'/'\<close> for \<open>langPrefix: '/de'\<close>). The helper puts the prefix between the base
  URL and every normalized path, the root included: with the context of that test the
  result is \<open>/de/\<close>.
\<close>

theorem url_root_takes_prefix:
  "render rt registerDefaultHelpers ''{{url:/}}''
     [(''config'', Obj [(''i18n'', Obj [(''defaultLocale'', Str ''en''),
                                        (''locales'', Arr [Str ''en'', Str ''de'', Str ''fr'']),
                                        (''strategy'', Str ''prefix_except_default'')])]),
      (''currentLang'', Str ''de''), (''langPrefix'', Str ''/de''), (''baseUrl'', Str '''')]
   = (Inr ''/de/'', [])"
proof -
  let ?cx = "[(''config'', Obj [(''i18n'', Obj [(''defaultLocale'', Str ''en''),
                                        (''locales'', Arr [Str ''en'', Str ''de'', Str ''fr'']),
                                        (''strategy'', Str ''prefix_except_default'')])]),
      (''currentLang'', Str ''de''), (''langPrefix'', Str ''/de''), (''baseUrl'', Str '''')]"
  have "render rt registerDefaultHelpers ''{{url:/}}'' ?cx = (Inr ''/de/'', [] @ [])"
  proof (rule render_stages)
    show "processConditionals rt ''{{url:/}}'' ?cx = (Inr ''{{url:/}}'', [])" by code_simp
    show "scan eachRegex ''{{url:/}}'' = map Chr ''{{url:/}}''" by code_simp
    show "processHelpers rt registerDefaultHelpers ''{{url:/}}'' ?cx = (Inr ''/de/'', [])" by code_simp
    show "processVariables rt ''/de/'' ?cx = (Inr ''/de/'', [])" by code_simp
  qed
  then show ?thesis by simp
qed
section \<open>Nested conditionals\<close>

lemma nested_tpl:
  "regex_test ifRegex ''{{#if a}}{{#if b}}X{{/if}}{{/if}}''"
  "scan ifRegex ''{{#if a}}{{#if b}}X{{/if}}{{/if}}''
     = Hit (''a'', ''{{#if b}}X'', None) ''{{#if a}}{{#if b}}X{{/if}}'' # map Chr ''{{/if}}''"
  "regex_test ifRegex ''{{#if b}}X{{/if}}''"
  "scan ifRegex ''{{#if b}}X{{/if}}'' = [Hit (''b'', ''X'', None) ''{{#if b}}X{{/if}}'']"
  "\<not> regex_test ifRegex ''{{/if}}''" "\<not> regex_test ifRegex ''X''" "\<not> regex_test ifRegex []"
  "trim ''a'' = ''a''" "trim ''b'' = ''b''"
  by code_simp+

lemma plain_scans:
  "scan eachRegex ''{{/if}}'' = map Chr ''{{/if}}''"
  "scan helperRegex ''{{/if}}'' = map Chr ''{{/if}}''"
  "scan varRegex ''{{/if}}'' = map Chr ''{{/if}}''"
  "scan eachRegex ''X'' = map Chr ''X''"
  "scan helperRegex ''X'' = map Chr ''X''"
  "scan varRegex ''X'' = map Chr ''X''"
  by code_simp+

text \<open>A condition that is one key reads the context once, which cannot throw.\<close>

lemma evaluateCondition_key:
  assumes "key \<noteq> []" "hd key \<noteq> CHR ''!''" "CHR ''.'' \<notin> set key"
  shows "evaluateCondition rt cx key
           = Inr (case obj_prop cx key of Arr xs \<Rightarrow> length xs > 0 | v \<Rightarrow> truthy rt v)"
  using assms
  by (cases key) (simp_all add: evaluateCondition.simps cond_value_def getNestedValue_key bind_res_def)

text \<open>
  C2: the claim is that \<open>{{#if a}}{{#if b}}X{{/if}}{{/if}}\<close> renders as \<open>X\<close> when
  \<open>a\<close> and \<open>b\<close> hold and as the empty string otherwise. The lazy pattern closes the
  outer block at the first \<open>{{/if}}\<close>, so the second one is left over: when \<open>a\<close>
  holds the next pass uses it to close the inner block, and when \<open>a\<close> fails it stays in
  the output. (The two conditions read one key each of the context, and return.)
\<close>

theorem nested_if:
  "render rt H ''{{#if a}}{{#if b}}X{{/if}}{{/if}}'' cx =
     (Inr (if evaluateCondition rt cx ''a'' = Inr True
           then (if evaluateCondition rt cx ''b'' = Inr True then ''X'' else '''')
           else ''{{/if}}''), [])
   \<and> evaluateCondition rt cx ''a''
       = Inr (case obj_prop cx ''a'' of Arr xs \<Rightarrow> length xs > 0 | v \<Rightarrow> truthy rt v)
   \<and> evaluateCondition rt cx ''b''
       = Inr (case obj_prop cx ''b'' of Arr xs \<Rightarrow> length xs > 0 | v \<Rightarrow> truthy rt v)"
proof -
  let ?t = "''{{#if a}}{{#if b}}X{{/if}}{{/if}}''"
  have a: "evaluateCondition rt cx ''a''
             = Inr (case obj_prop cx ''a'' of Arr xs \<Rightarrow> length xs > 0 | v \<Rightarrow> truthy rt v)"
    by (rule evaluateCondition_key) simp_all
  have b: "evaluateCondition rt cx ''b''
             = Inr (case obj_prop cx ''b'' of Arr xs \<Rightarrow> length xs > 0 | v \<Rightarrow> truthy rt v)"
    by (rule evaluateCondition_key) simp_all
  obtain va where va: "evaluateCondition rt cx ''a'' = Inr va" using a by blast
  obtain vb where vb: "evaluateCondition rt cx ''b'' = Inr vb" using b by blast
  have p1: "replace_eff (if_callback rt cx) (scan ifRegex ?t)
            = ret (if va then ''{{#if b}}X{{/if}}'' else ''{{/if}}'')"
    by (simp add: nested_tpl if_callback_returns[where b=va] va)
  have p2: "replace_eff (if_callback rt cx) (scan ifRegex ''{{#if b}}X{{/if}}'')
            = ret (if vb then ''X'' else '''')"
    by (simp add: nested_tpl if_callback_returns[where b=vb] vb)
  have s1: "processConditionals rt ?t cx
              = processConditionals_loop rt cx (if va then ''{{#if b}}X{{/if}}'' else ''{{/if}}'') ?t"
    by (simp only: processConditionals_step[OF nested_tpl(1)] p1 bind_ret)
  have s2: "processConditionals_loop rt cx ''{{#if b}}X{{/if}}'' ?t
              = processConditionals_loop rt cx (if vb then ''X'' else []) ''{{#if b}}X{{/if}}''"
    by (subst loop_step[OF nested_tpl(3)]) (simp_all only: p2 bind_ret, simp)
  have c: "processConditionals rt ?t cx =
             ret (if va then (if vb then ''X'' else []) else ''{{/if}}'')"
    unfolding s1 by (simp add: s2 loop_stop nested_tpl)
  have "render rt H ?t cx = (Inr (if va then (if vb then ''X'' else '''') else ''{{/if}}''), [])"
    by (rule render_after_conditionals) (auto simp: c ret_def plain_scans)
  with va vb a b show ?thesis by simp
qed
section \<open>The locale prefix\<close>

text \<open>
  C3: the locale prefix is empty when the configuration has no i18n section; under the
  strategy \<open>prefix_except_default\<close> it is empty for the default locale and
  \<open>/locale\<close> for any other; under \<open>prefix\<close> it is \<open>/locale\<close> for every
  locale, the default one included.
\<close>

theorem getLangPrefix_spec:
  "getLangPrefix \<lparr>i18n = None\<rparr> locale dflt = ''''
   \<and> getLangPrefix \<lparr>i18n = Some (cfg\<lparr>strategy := Some ''prefix_except_default''\<rparr>)\<rparr> locale dflt
       = (if locale = dflt then '''' else ''/'' @ locale)
   \<and> getLangPrefix \<lparr>i18n = Some (cfg\<lparr>strategy := Some ''prefix''\<rparr>)\<rparr> locale dflt
       = ''/'' @ locale"
  by (simp add: getLangPrefix_def)

section \<open>Helpers that are missing or throw\<close>





section \<open>The translate helper\<close>

lemma split_on_not_Nil [simp]: "split_on c s \<noteq> []"
  by (induction s) (auto split: list.splits)

lemma set_hd_split_on: "set (hd (split_on c s)) \<subseteq> set s"
  by (induction s) (auto split: list.splits)

lemma set_trim: "set (trim s) \<subseteq> set s"
  unfolding trim_def by (metis set_dropWhileD set_rev subsetI)

text \<open>The first argument of a helper tag: the text before the first comma, trimmed.\<close>

definition first_arg :: "string \<Rightarrow> string" where
  "first_arg args = trim (hd (split_on CHR '','' args))"

lemma arg_list:
  "\<exists>others. map (\<lambda>arg. Str (trim arg)) (split_on CHR '','' args) = Str (first_arg args) # others"
  by (cases "split_on CHR '','' args") (simp_all add: first_arg_def)

text \<open>
  \<open>translate\<close> and \<open>t\<close> return the key when there is no dictionary, or when what
  the lookup of the key returns does not count as true.
\<close>

lemma translate_returns_key:
  assumes "\<not> truthy rt (obj_prop cx ''localeData'')
           \<or> (\<exists>v. getNestedValue rt (obj_prop cx ''localeData'') key = Inr v \<and> \<not> truthy rt v)"
  shows "translate_helper rt cx (Str key # others) = Inr (Str key)"
  using assms
  by (auto simp: translate_helper_def nth_arg_def getNestedValue_dyn_def bind_res_def js_or_def Let_def)

lemma call_translate_returns_key:
  assumes "\<not> truthy rt (obj_prop cx ''localeData'')
           \<or> (\<exists>v. getNestedValue rt (obj_prop cx ''localeData'') key = Inr v \<and> \<not> truthy rt v)"
  shows "call_helper rt registerDefaultHelpers (Registered (Native translate_helper)) cx (Str key # others)
           = Inr (Str key)"
    and "call_helper rt registerDefaultHelpers (Registered Call_translate) cx (Str key # others) = Inr (Str key)"
  using translate_returns_key[OF assms]
  by (simp_all add: call_helper_def call_registered_def default_helpers nth_arg_def)

lemma translate_callback_returns_key:
  assumes "\<not> truthy rt (obj_prop cx ''localeData'')
           \<or> (\<exists>v. getNestedValue rt (obj_prop cx ''localeData'') (first_arg args) = Inr v \<and> \<not> truthy rt v)"
  shows "helper_callback rt registerDefaultHelpers cx (''translate'', args) tag = (Inr (first_arg args), [])"
    and "helper_callback rt registerDefaultHelpers cx (''t'', args) tag = (Inr (first_arg args), [])"
proof -
  obtain others where m: "map (\<lambda>arg. Str (trim arg)) (split_on CHR '','' args) = Str (first_arg args) # others"
    using arg_list[of args] by (elim exE)
  show "helper_callback rt registerDefaultHelpers cx (''translate'', args) tag = (Inr (first_arg args), [])"
    using call_translate_returns_key(1)[OF assms, of others]
    by (simp add: helper_callback_def find_default_helpers m lift_res_def)
  show "helper_callback rt registerDefaultHelpers cx (''t'', args) tag = (Inr (first_arg args), [])"
    using call_translate_returns_key(2)[OF assms, of others]
    by (simp add: helper_callback_def find_default_helpers m lift_res_def)
qed

text \<open>A template that is one such tag, with arguments that hold no brace.\<close>

lemma render_translate_returns_key:
  assumes "\<not> truthy rt (obj_prop cx ''localeData'')
           \<or> (\<exists>v. getNestedValue rt (obj_prop cx ''localeData'') (first_arg args) = Inr v \<and> \<not> truthy rt v)"
    and "args \<noteq> []" "CHR ''{'' \<notin> set args" "CHR ''}'' \<notin> set args"
  shows "render rt registerDefaultHelpers (''{{translate:'' @ args @ ''}}'') cx = (Inr (first_arg args), [])"
    and "render rt registerDefaultHelpers (''{{t:'' @ args @ ''}}'') cx = (Inr (first_arg args), [])"
proof -
  have k: "CHR ''{'' \<notin> set (first_arg args)"
    using assms(3) set_trim[of "hd (split_on CHR '','' args)"] set_hd_split_on[of "CHR '',''" args]
    unfolding first_arg_def by blast
  have v: "processVariables rt (first_arg args) cx = ret (first_arg args)"
    by (rule processVariables_plain[OF k])
  have "render rt registerDefaultHelpers ([] @ ''{{'' @ ''translate'' @ '':'' @ args @ ''}}'' @ []) cx
          = bind (helper_callback rt registerDefaultHelpers cx (''translate'', args)
                    (''{{'' @ ''translate'' @ '':'' @ args @ ''}}''))
              (\<lambda>r. processVariables rt ([] @ r @ []) cx)"
    by (rule render_single_tag) (use assms in simp_all)
  then show "render rt registerDefaultHelpers (''{{translate:'' @ args @ ''}}'') cx = (Inr (first_arg args), [])"
    by (simp add: translate_callback_returns_key(1)[OF assms(1)] v ret_def)
  have "render rt registerDefaultHelpers ([] @ ''{{'' @ ''t'' @ '':'' @ args @ ''}}'' @ []) cx
          = bind (helper_callback rt registerDefaultHelpers cx (''t'', args)
                    (''{{'' @ ''t'' @ '':'' @ args @ ''}}''))
              (\<lambda>r. processVariables rt ([] @ r @ []) cx)"
    by (rule render_single_tag) (use assms in simp_all)
  then show "render rt registerDefaultHelpers (''{{t:'' @ args @ ''}}'') cx = (Inr (first_arg args), [])"
    by (simp add: translate_callback_returns_key(2)[OF assms(1)] v ret_def)
qed

section \<open>Loops\<close>







section \<open>Missing translations\<close>



section \<open>Tags without a colon\<close>

lemma year_colon_scans:
  "\<not> regex_test ifRegex ''{{year:}}''" "scan eachRegex ''{{year:}}'' = map Chr ''{{year:}}''"
  "scan helperRegex ''{{year:}}'' = map Chr ''{{year:}}''"
  "scan varRegex ''{{year:}}'' = map Chr ''{{year:}}''"
  by code_simp+

lemma year_name:
  "\<forall>c\<in>set ''year''. var_char c" "trim ''year'' = ''year''" "CHR ''.'' \<notin> set ''year''"
  "''year'' \<notin> set object_prototype_names"
  by code_simp+

text \<open>
  C8: a tag without a colon is never given to a helper, whatever is registered. Every
  match of the helper stage, in every text, is a name, a colon and a segment of
  arguments that is not empty; the helper pattern does not match at a tag
  \<open>{{name}}\<close> without a colon, whatever follows it; and the helper stage copies a
  tag \<open>{{name}}\<close> of variable characters and goes on with the text behind it. Such
  a tag is a match of the variable pattern, and a template that consists of it renders
  as the variable stage substitutes it. So \<open>{{year}}\<close> renders as the empty string in
  a context without the key \<open>year\<close> and as the value of the key in a context with
  it, although \<open>year\<close> is a registered helper. Since the arguments of a helper tag
  cannot be empty, \<open>{{year:}}\<close> is no helper tag either and stays as it is; with a
  dummy argument, \<open>{{year:_}}\<close> renders as the calendar year.
\<close>

theorem year_tag_is_a_variable:
  "(Hit (n, a) t \<in> set (scan helperRegex s)
      \<longrightarrow> t = ''{{'' @ n @ '':'' @ a @ ''}}'' \<and> n \<noteq> [] \<and> a \<noteq> [])
   \<and> (CHR '':'' \<notin> set name \<longrightarrow> helperRegex (''{{'' @ name @ ''}}'' @ rest) = None)
   \<and> ((\<forall>c\<in>set name. var_char c)
      \<longrightarrow> processHelpers rt H (''{{'' @ name @ ''}}'' @ rest) cx
            = bind (processHelpers rt H rest cx) (\<lambda>out. ret (''{{'' @ name @ ''}}'' @ out)))
   \<and> (name \<noteq> [] \<and> (\<forall>c\<in>set name. var_char c)
      \<longrightarrow> varRegex (''{{'' @ name @ ''}}'' @ rest) = Some (name, rest)
          \<and> render rt H (''{{'' @ name @ ''}}'') cx = var_callback rt cx name (''{{'' @ name @ ''}}''))
   \<and> (map_of cx ''year'' = None \<longrightarrow> render rt H ''{{year}}'' cx = (Inr '''', []))
   \<and> (map_of cx ''year'' = Some v \<and> v \<noteq> Undefined \<and> v \<noteq> Null
      \<longrightarrow> render rt H ''{{year}}'' cx = (to_string rt v, []))
   \<and> render rt H ''{{year:}}'' cx = (Inr ''{{year:}}'', [])
   \<and> registerDefaultHelpers ''year'' = Some (Native year_helper)
   \<and> render rt registerDefaultHelpers ''{{year:_}}'' cx = (Inr (show_nat (current_year rt)), [])"
proof (intro conjI impI)
  show "t = ''{{'' @ n @ '':'' @ a @ ''}}''" "n \<noteq> []" "a \<noteq> []"
    if "Hit (n, a) t \<in> set (scan helperRegex s)"
    using helper_hit_text[OF that] by blast+
  show "helperRegex (''{{'' @ name @ ''}}'' @ rest) = None" if "CHR '':'' \<notin> set name"
    using that by (rule helperRegex_no_colon)
  show "processHelpers rt H (''{{'' @ name @ ''}}'' @ rest) cx
            = bind (processHelpers rt H rest cx) (\<lambda>out. ret (''{{'' @ name @ ''}}'' @ out))"
    if "\<forall>c\<in>set name. var_char c"
    by (simp only: processHelpers_def scan_helper_variable_tag[OF that] replace_eff_append
          replace_eff_Chr bind_ret append_assoc)
  show "varRegex (''{{'' @ name @ ''}}'' @ rest) = Some (name, rest)"
    if "name \<noteq> [] \<and> (\<forall>c\<in>set name. var_char c)"
    using that varRegex_tag[of name rest] by blast
  show "render rt H (''{{'' @ name @ ''}}'') cx = var_callback rt cx name (''{{'' @ name @ ''}}'')"
    if "name \<noteq> [] \<and> (\<forall>c\<in>set name. var_char c)"
    using that render_variable_tag[of name rt H cx] by blast
  have y: "render rt H ''{{year}}'' cx = var_callback rt cx ''year'' ''{{year}}''"
    using render_variable_tag[of "''year''" rt H cx] year_name(1) by simp
  show "render rt H ''{{year}}'' cx = (Inr '''', [])" if "map_of cx ''year'' = None"
    unfolding y using that obj_prop_absent[OF that year_name(4)]
    by (simp add: var_callback_def year_name(2) getNestedValue_key lift_res_def ret_def)
  show "render rt H ''{{year}}'' cx = (to_string rt v, [])"
    if "map_of cx ''year'' = Some v \<and> v \<noteq> Undefined \<and> v \<noteq> Null"
    unfolding y using that
    by (simp add: var_callback_def year_name(2) getNestedValue_key obj_prop_own lift_res_def)
  show "render rt H ''{{year:}}'' cx = (Inr ''{{year:}}'', [])"
    by (rule render_verbatim) (rule year_colon_scans)+
  show "registerDefaultHelpers ''year'' = Some (Native year_helper)"
    by (rule default_helpers)
  have "CHR ''{'' \<notin> set (show_nat (current_year rt))" using show_nat_digits[of "current_year rt"] by auto
  then have "render rt registerDefaultHelpers ([] @ ''{{'' @ ''year'' @ '':'' @ ''_'' @ ''}}'' @ []) cx
          = (Inr ([] @ show_nat (current_year rt) @ []), [])"
    by (intro render_single_tag_value[where h="Registered (Native year_helper)"])
       (simp_all add: find_default_helpers call_helper_def call_registered_def year_helper_def)
  then show "render rt registerDefaultHelpers ''{{year:_}}'' cx = (Inr (show_nat (current_year rt)), [])"
    by simp
qed

theorem year_tag_is_a_variable_witness:
  "processHelpers example_runtime registerDefaultHelpers ''{{year}} {{year:_}}'' []
     = (Inr ''{{year}} 2025'', [])
   \<and> helperRegex ''{{year}}:x}}'' = None
   \<and> varRegex ''{{year}}'' = Some (''year'', [])
   \<and> render example_runtime registerDefaultHelpers ''{{year}}'' [(''title'', Str ''Home'')] = (Inr [], [])
   \<and> render example_runtime registerDefaultHelpers ''{{year}}'' [(''year'', Str ''1999'')] = (Inr ''1999'', [])
   \<and> render example_runtime registerDefaultHelpers ''{{year:_}}'' [] = (Inr ''2025'', [])"
proof -
  let ?H = registerDefaultHelpers
  have y: "show_nat (current_year example_runtime) = ''2025''" by code_simp
  have s: "Hit (''year'', ''_'') ''{{year:_}}'' \<in> set (scan helperRegex ''{{year}} {{year:_}}'')"
    by code_simp
  have r: "processHelpers example_runtime ?H '' {{year:_}}'' [] = (Inr '' 2025'', [])" by code_simp
  have c: "CHR '':'' \<notin> set ''year''" by simp
  have n: "''year'' \<noteq> [] \<and> (\<forall>c\<in>set ''year''. var_char c)" using year_name(1) by simp
  have m1: "map_of [(''title'', Str ''Home'')] ''year'' = None" by simp
  have m2: "map_of [(''year'', Str ''1999'')] ''year'' = Some (Str ''1999'')
            \<and> Str ''1999'' \<noteq> Undefined \<and> Str ''1999'' \<noteq> Null" by simp
  note t = year_tag_is_a_variable[where name="''year''" and rt=example_runtime and H="?H"
      and n="''year''" and a="''_''" and t="''{{year:_}}''" and s="''{{year}} {{year:_}}''"]
  from t[where rest="'' {{year:_}}''" and cx="[]"] s n r
  have 1: "processHelpers example_runtime ?H (''{{'' @ ''year'' @ ''}}'' @ '' {{year:_}}'') []
             = (Inr (''{{'' @ ''year'' @ ''}}'' @ '' 2025''), [])"
    by (simp add: ret_def)
  from t[where rest="'':x}}''" and cx="[]"] c
  have 2: "helperRegex (''{{'' @ ''year'' @ ''}}'' @ '':x}}'') = None" by blast
  from t[where rest="[]" and cx="[]"] n
  have 3: "varRegex (''{{'' @ ''year'' @ ''}}'' @ []) = Some (''year'', [])" by blast
  from t[where rest="[]" and cx="[(''title'', Str ''Home'')]"] m1
  have 4: "render example_runtime ?H ''{{year}}'' [(''title'', Str ''Home'')] = (Inr [], [])" by blast
  from t[where rest="[]" and cx="[(''year'', Str ''1999'')]" and v="Str ''1999''"] m2
  have 5: "render example_runtime ?H ''{{year}}'' [(''year'', Str ''1999'')]
             = (to_string example_runtime (Str ''1999''), [])" by blast
  from t[where rest="[]" and cx="[]"]
  have 6: "render example_runtime ?H ''{{year:_}}'' [] = (Inr (show_nat (current_year example_runtime)), [])"
    by blast
  from 1 2 3 4 5 6 y show ?thesis by simp
qed
section \<open>The loop metadata keys\<close>









section \<open>Translations that do not count as true\<close>

text \<open>
  C10, as amended: when the lookup of the key in the locale dictionary yields the empty
  string, 0, false or null, \<open>translate\<close> and \<open>t\<close> return the key itself and not
  that value. The helper stage then puts the key in the place of the tag, and a
  template that is one such tag, with arguments that hold no brace, renders as the
  key: as the empty string when the key is empty, and only then.
\<close>

theorem translate_falsy_entry:
  assumes "getNestedValue rt (obj_prop cx ''localeData'') key = Inr v"
    and "v \<in> {Str '''', Num 0, Bool False, Null}"
  shows "call_helper rt registerDefaultHelpers (Registered (Native translate_helper)) cx [Str key] = Inr (Str key)
     \<and> call_helper rt registerDefaultHelpers (Registered Call_translate) cx [Str key] = Inr (Str key)
     \<and> (key = first_arg args
          \<longrightarrow> helper_callback rt registerDefaultHelpers cx (''translate'', args) tag = (Inr key, [])
            \<and> helper_callback rt registerDefaultHelpers cx (''t'', args) tag = (Inr key, [])
            \<and> (args \<noteq> [] \<and> CHR ''{'' \<notin> set args \<and> CHR ''}'' \<notin> set args
                 \<longrightarrow> render rt registerDefaultHelpers (''{{translate:'' @ args @ ''}}'') cx = (Inr key, [])
                   \<and> render rt registerDefaultHelpers (''{{t:'' @ args @ ''}}'') cx = (Inr key, [])))"
proof -
  from assms have f: "\<not> truthy rt (obj_prop cx ''localeData'')
           \<or> (\<exists>v. getNestedValue rt (obj_prop cx ''localeData'') key = Inr v \<and> \<not> truthy rt v)"
    by auto
  show ?thesis
  proof (intro conjI impI)
    show "call_helper rt registerDefaultHelpers (Registered (Native translate_helper)) cx [Str key] = Inr (Str key)"
      "call_helper rt registerDefaultHelpers (Registered Call_translate) cx [Str key] = Inr (Str key)"
      by (rule call_translate_returns_key[OF f])+
    assume k: "key = first_arg args"
    note g = f[unfolded k]
    show "helper_callback rt registerDefaultHelpers cx (''translate'', args) tag = (Inr key, [])"
      "helper_callback rt registerDefaultHelpers cx (''t'', args) tag = (Inr key, [])"
      unfolding k by (rule translate_callback_returns_key[OF g])+
    assume a: "args \<noteq> [] \<and> CHR ''{'' \<notin> set args \<and> CHR ''}'' \<notin> set args"
    show "render rt registerDefaultHelpers (''{{translate:'' @ args @ ''}}'') cx = (Inr key, [])"
      "render rt registerDefaultHelpers (''{{t:'' @ args @ ''}}'') cx = (Inr key, [])"
      unfolding k using a by (intro render_translate_returns_key[OF g]; blast)+
  qed
qed

theorem translate_falsy_entry_witness:
  "render example_runtime registerDefaultHelpers ''{{translate:nav.home}}''
      [(''localeData'', Obj [(''nav'', Obj [(''home'', Str '''')])])] = (Inr ''nav.home'', [])
   \<and> helper_callback example_runtime registerDefaultHelpers
        [(''localeData'', Obj [(''nav'', Obj [(''home'', Str '''')])])] (''t'', '' nav.home , x'') ''{{t: nav.home , x}}''
       = (Inr ''nav.home'', [])
   \<and> call_helper example_runtime registerDefaultHelpers (Registered Call_translate)
      [(''localeData'', Obj [(''count'', Num 0)])] [Str ''count''] = Inr (Str ''count'')"
proof -
  let ?c1 = "[(''localeData'', Obj [(''nav'', Obj [(''home'', Str '''')])])]"
  let ?c2 = "[(''localeData'', Obj [(''count'', Num 0)])]"
  have 1: "getNestedValue example_runtime (obj_prop ?c1 ''localeData'') ''nav.home'' = Inr (Str '''')"
    by code_simp
  have 2: "getNestedValue example_runtime (obj_prop ?c2 ''localeData'') ''count'' = Inr (Num 0)"
    by code_simp
  have m: "Str '''' \<in> {Str '''', Num 0, Bool False, Null}" "Num 0 \<in> {Str '''', Num 0, Bool False, Null}"
    by simp_all
  have t: "first_arg ''nav.home'' = ''nav.home''" "first_arg '' nav.home , x'' = ''nav.home''"
    by code_simp+
  from translate_falsy_entry[OF 1 m(1), where args="''nav.home''"]
       translate_falsy_entry[OF 1 m(1), where args="'' nav.home , x''" and tag="''{{t: nav.home , x}}''"]
       translate_falsy_entry[OF 2 m(2)] t
  show ?thesis by simp
qed

text \<open>
  C10 as stated fails for the empty key: the arguments of a tag may be blank, the key is
  then the empty string, and an entry under the empty key that maps to the empty
  string renders as the empty string.
\<close>

theorem translate_empty_key:
  "getNestedValue example_runtime (Obj [('''', Str '''')]) '''' = Inr (Str '''')
   \<and> render example_runtime registerDefaultHelpers ''{{translate: }}'' [(''localeData'', Obj [('''', Str '''')])]
       = (Inr '''', [])"
proof -
  let ?cx = "[(''localeData'', Obj [('''', Str '''')])]"
  have "render example_runtime registerDefaultHelpers ''{{translate: }}'' ?cx = (Inr '''', [] @ [])"
  proof (rule render_stages)
    show "processConditionals example_runtime ''{{translate: }}'' ?cx = (Inr ''{{translate: }}'', [])"
      by code_simp
    show "scan eachRegex ''{{translate: }}'' = map Chr ''{{translate: }}''" by code_simp
    show "processHelpers example_runtime registerDefaultHelpers ''{{translate: }}'' ?cx = (Inr '''', [])"
      by code_simp
    show "processVariables example_runtime '''' ?cx = (Inr '''', [])" by code_simp
  qed
  moreover have "getNestedValue example_runtime (Obj [('''', Str '''')]) '''' = Inr (Str '''')"
    by code_simp
  ultimately show ?thesis by simp
qed
section \<open>Termination and exceptions\<close>













end
